theory Spec2Isabelle
  imports Main
begin

section \<open>remote-dump1090: the relay and its connector\<close>

text \<open>
  The program of \<^verbatim>\<open>remote_dump1090.c\<close> talks to the operating system only: every
  function below is the C function of the same name, run against a script of the results
  the system calls will return. A run yields the list of calls made and lines logged, in
  program order, and the way the run ended.
\<close>

subsection \<open>Constants of the source\<close>

definition BUFFER_SIZE :: nat where
  "BUFFER_SIZE = 1024"

definition SOCKET_TIMEOUT :: nat where
  "SOCKET_TIMEOUT = 5"

definition RETRY_SLEEP :: nat where
  "RETRY_SLEEP = 1"

text \<open>The two priorities of \<^verbatim>\<open>syslog.h\<close> that the program uses.\<close>

definition LOG_ERR :: int where
  "LOG_ERR = 3"

definition LOG_WARNING :: int where
  "LOG_WARNING = 4"

subsection \<open>Data\<close>

type_synonym in_addr = nat

text \<open>
  A \<^verbatim>\<open>struct hostent\<close>, as far as the program reads it: the field
  \<^verbatim>\<open>h_addr_list\<close> is \<open>None\<close> for a NULL pointer and otherwise the entries of
  the NULL-terminated array.
\<close>

record hostent =
  h_addr_list :: "in_addr list option"

datatype sockopt = SO_RCVTIMEO | SO_SNDTIMEO

text \<open>
  The messages handed to \<^verbatim>\<open>xlog\<close>, one constructor for each format string of the
  source, with the arguments that the program supplies. The text of
  \<^verbatim>\<open>strerror(errno)\<close> and \<^verbatim>\<open>hstrerror(h_errno)\<close> belongs to the C library and is
  left out.
\<close>

datatype logmsg =
    Failed_create_socket string int  \<comment> \<open>Failed to create socket for %s:%d, retrying: %s\<close>
  | Failed_read_timeout string int   \<comment> \<open>Failed to set socket read timeout for %s:%d: %s\<close>
  | Failed_write_timeout string int  \<comment> \<open>Failed to set socket write timeout for %s:%d: %s\<close>
  | Failed_parse_hostname string     \<comment> \<open>Failed to parse hostname for %s: %s\<close>
  | No_ipv4_address string           \<comment> \<open>Can't find any IPv4 address for %s\<close>
  | Multiple_ipv4 in_addr            \<comment> \<open>Hostname with more than one IPv4 address, using the first one detected: %s\<close>
  | Failed_connect string int        \<comment> \<open>Failed to connect to %s:%d, retrying: %s\<close>
  | Invalid_argument char            \<comment> \<open>invalid argument: -%c\<close>
  | Src_host_required                \<comment> \<open>SRC_HOST is required\<close>
  | Dst_host_required                \<comment> \<open>DST_HOST is required\<close>

text \<open>
  What the program does to the outside, one event per call. A call that returns a value
  carries the value it returned as its last argument.
\<close>

datatype event =
    Signal_ignore_SIGPIPE
  | Socket int
  | Setsockopt int sockopt nat nat int  \<comment> \<open>fd, option, tv_sec, tv_usec, result\<close>
  | Gethostbyname2 string "hostent option"
  | Connect int in_addr nat int         \<comment> \<open>fd, sin_addr, sin_port, result\<close>
  | Read int nat "char list" int        \<comment> \<open>fd, count, bytes stored in the buffer, result\<close>
  | Write int "char list" int           \<comment> \<open>fd, bytes handed over, result\<close>
  | Close int
  | Sleep nat
  | Vsyslog int logmsg                  \<comment> \<open>priority, message\<close>
  | Stderr string logmsg                \<comment> \<open>level printed before the message\<close>
  | Printf string

text \<open>
  One answer of \<^verbatim>\<open>read\<close>: either the bytes that the connection has ready, of which
  the call takes at most \<open>count\<close>, or a failure that returns \<open>- n\<close> (\<open>0\<close> at an
  orderly close by the peer, \<open>-1\<close> on an error or a timeout).
\<close>

datatype rd = Rd_data "char list" | Rd_fail nat

text \<open>
  The state: the one global variable of the program, the bytes that happen to lie in the
  automatic array \<^verbatim>\<open>buf\<close> before it is first written, and for each system call the
  results that its coming invocations will return.
\<close>

record sys =
  send_to_syslog :: bool
  stack_bytes :: "char list"
  socket_rs :: "int list"
  setsockopt_rs :: "int list"
  gethostbyname2_rs :: "hostent option list"
  connect_rs :: "int list"
  read_rs :: "rd list"
  write_rs :: "int list"

text \<open>
  How a run ends: the function returns a value, the process ends through
  \<^verbatim>\<open>exit\<close>, the process dereferences a NULL pointer (\<open>Fault\<close>), or the script has no
  answer left for the call the program is making (\<open>Stall\<close>: the run is cut there).
\<close>

datatype 'a result = Ret 'a sys | Exit int | Fault | Stall

type_synonym 'a run = "event list \<times> 'a result"

definition emit :: "event list \<Rightarrow> 'a run \<Rightarrow> 'a run" where
  "emit es r = (es @ fst r, snd r)"

definition and_then :: "'a run \<Rightarrow> ('a \<Rightarrow> sys \<Rightarrow> 'b run) \<Rightarrow> 'b run" where
  "and_then r f =
     (case snd r of
        Ret a w \<Rightarrow> emit (fst r) (f a w)
      | Exit c \<Rightarrow> (fst r, Exit c)
      | Fault \<Rightarrow> (fst r, Fault)
      | Stall \<Rightarrow> (fst r, Stall))"

subsection \<open>System calls\<close>

definition sys_socket :: "sys \<Rightarrow> (int \<times> sys) option" where
  "sys_socket w =
     (case socket_rs w of [] \<Rightarrow> None | r # rs \<Rightarrow> Some (r, w\<lparr>socket_rs := rs\<rparr>))"

definition sys_setsockopt :: "sys \<Rightarrow> (int \<times> sys) option" where
  "sys_setsockopt w =
     (case setsockopt_rs w of [] \<Rightarrow> None | r # rs \<Rightarrow> Some (r, w\<lparr>setsockopt_rs := rs\<rparr>))"

definition sys_gethostbyname2 :: "sys \<Rightarrow> (hostent option \<times> sys) option" where
  "sys_gethostbyname2 w =
     (case gethostbyname2_rs w of [] \<Rightarrow> None
      | r # rs \<Rightarrow> Some (r, w\<lparr>gethostbyname2_rs := rs\<rparr>))"

definition sys_connect :: "sys \<Rightarrow> (int \<times> sys) option" where
  "sys_connect w =
     (case connect_rs w of [] \<Rightarrow> None | r # rs \<Rightarrow> Some (r, w\<lparr>connect_rs := rs\<rparr>))"

text \<open>
  \<^verbatim>\<open>read(fd, buf, count)\<close> stores at most \<open>count\<close> of the ready bytes at the start of
  \<open>buf\<close> and returns how many; the bytes it did not take stay ready for the next call.
  The result is the return value, the bytes stored and the buffer afterwards.
\<close>

definition sys_read :: "nat \<Rightarrow> char list \<Rightarrow> sys \<Rightarrow> (int \<times> char list \<times> char list \<times> sys) option" where
  "sys_read count buf w =
     (case read_rs w of
        [] \<Rightarrow> None
      | Rd_fail n # rs \<Rightarrow> Some (- int n, [], buf, w\<lparr>read_rs := rs\<rparr>)
      | Rd_data bs # rs \<Rightarrow>
          (let got = take count bs; left = drop count bs
           in Some (int (length got), got, got @ drop (length got) buf,
                    w\<lparr>read_rs := (if left = [] then rs else Rd_data left # rs)\<rparr>)))"

definition sys_write :: "sys \<Rightarrow> (int \<times> sys) option" where
  "sys_write w =
     (case write_rs w of [] \<Rightarrow> None | r # rs \<Rightarrow> Some (r, w\<lparr>write_rs := rs\<rparr>))"

text \<open>
  \<^verbatim>\<open>htons(port)\<close>: the \<^verbatim>\<open>int\<close> is converted to 16 bits; the byte order of the
  result is not modelled, the port is the number those 16 bits denote.
\<close>

definition htons :: "int \<Rightarrow> nat" where
  "htons port = nat (port mod 65536)"

subsection \<open>xlog\<close>

definition xlog :: "sys \<Rightarrow> int \<Rightarrow> logmsg \<Rightarrow> event" where
  "xlog w priority msg =
     (if send_to_syslog w then Vsyslog priority msg
      else Stderr (if priority = LOG_WARNING then ''warning''
                   else if priority = LOG_ERR then ''error''
                   else ''unknown'') msg)"

subsection \<open>socket\_connect\<close>

text \<open>The first \<^verbatim>\<open>do ... while (fd < 0)\<close> of \<^verbatim>\<open>socket_connect\<close>.\<close>

function create_socket :: "string \<Rightarrow> int \<Rightarrow> sys \<Rightarrow> int run" where
  "create_socket host port w =
     (case sys_socket w of
        None \<Rightarrow> ([], Stall)
      | Some (fd, w') \<Rightarrow>
          if fd < 0
          then emit [Socket fd, xlog w' LOG_WARNING (Failed_create_socket host port),
                     Sleep RETRY_SLEEP]
                 (create_socket host port w')
          else ([Socket fd], Ret fd w'))"
  by pat_completeness auto
termination
  by (relation "measure (\<lambda>(host, port, w). length (socket_rs w))")
     (auto simp: sys_socket_def split: list.splits)

declare create_socket.simps [simp del]

text \<open>The two \<^verbatim>\<open>setsockopt\<close> calls, each followed by its check.\<close>

definition set_timeouts :: "string \<Rightarrow> int \<Rightarrow> int \<Rightarrow> sys \<Rightarrow> unit run" where
  "set_timeouts host port fd w =
     (case sys_setsockopt w of
        None \<Rightarrow> ([], Stall)
      | Some (rv, w1) \<Rightarrow>
          if rv < 0
          then ([Setsockopt fd SO_RCVTIMEO SOCKET_TIMEOUT 0 rv,
                 xlog w1 LOG_ERR (Failed_read_timeout host port)], Exit 1)
          else emit [Setsockopt fd SO_RCVTIMEO SOCKET_TIMEOUT 0 rv]
            (case sys_setsockopt w1 of
               None \<Rightarrow> ([], Stall)
             | Some (rv', w2) \<Rightarrow>
                 if rv' < 0
                 then ([Setsockopt fd SO_SNDTIMEO SOCKET_TIMEOUT 0 rv',
                        xlog w2 LOG_ERR (Failed_write_timeout host port)], Exit 1)
                 else ([Setsockopt fd SO_SNDTIMEO SOCKET_TIMEOUT 0 rv'], Ret () w2)))"

text \<open>
  \<^verbatim>\<open>gethostbyname2\<close> and the choice of the address: the result is
  \<^verbatim>\<open>*addr_list[0]\<close>.
\<close>

definition resolve :: "string \<Rightarrow> sys \<Rightarrow> in_addr run" where
  "resolve host w =
     (case sys_gethostbyname2 w of
        None \<Rightarrow> ([], Stall)
      | Some (None, w') \<Rightarrow>
          ([Gethostbyname2 host None, xlog w' LOG_ERR (Failed_parse_hostname host)], Exit 1)
      | Some (Some h, w') \<Rightarrow>
          (case h_addr_list h of
             None \<Rightarrow>
               ([Gethostbyname2 host (Some h), xlog w' LOG_ERR (No_ipv4_address host)], Exit 1)
           | Some [] \<Rightarrow>
               ([Gethostbyname2 host (Some h), xlog w' LOG_ERR (No_ipv4_address host)], Exit 1)
           | Some [a] \<Rightarrow> ([Gethostbyname2 host (Some h)], Ret a w')
           | Some (a # b # others) \<Rightarrow>
               ([Gethostbyname2 host (Some h), xlog w' LOG_WARNING (Multiple_ipv4 a)],
                Ret a w')))"

text \<open>The second \<^verbatim>\<open>do ... while (rv < 0)\<close>; it ends in \<^verbatim>\<open>return fd\<close>.\<close>

function connect_retry :: "string \<Rightarrow> int \<Rightarrow> int \<Rightarrow> in_addr \<Rightarrow> sys \<Rightarrow> int run" where
  "connect_retry host port fd addr w =
     (case sys_connect w of
        None \<Rightarrow> ([], Stall)
      | Some (rv, w') \<Rightarrow>
          if rv < 0
          then emit [Connect fd addr (htons port) rv,
                     xlog w' LOG_WARNING (Failed_connect host port), Sleep RETRY_SLEEP]
                 (connect_retry host port fd addr w')
          else ([Connect fd addr (htons port) rv], Ret fd w'))"
  by pat_completeness auto
termination
  by (relation "measure (\<lambda>(host, port, fd, addr, w). length (connect_rs w))")
     (auto simp: sys_connect_def split: list.splits)

declare connect_retry.simps [simp del]

definition socket_connect :: "string \<Rightarrow> int \<Rightarrow> sys \<Rightarrow> int run" where
  "socket_connect host port w =
     and_then (create_socket host port w) (\<lambda>fd w1.
     and_then (set_timeouts host port fd w1) (\<lambda>_ w2.
     and_then (resolve host w2) (\<lambda>addr w3.
     connect_retry host port fd addr w3)))"

subsection \<open>main\_loop\<close>

text \<open>
  One pass through the body of \<^verbatim>\<open>while (1)\<close>. It returns the values of
  \<^verbatim>\<open>dst\<close>, \<^verbatim>\<open>src\<close> and \<^verbatim>\<open>buf\<close> with which the next pass starts.
\<close>

definition relay_step ::
  "string \<Rightarrow> int \<Rightarrow> string \<Rightarrow> int \<Rightarrow> int \<Rightarrow> int \<Rightarrow> char list \<Rightarrow> sys
     \<Rightarrow> (int \<times> int \<times> char list) run" where
  "relay_step src_host src_port dst_host dst_port dst src buf w =
     (case sys_read BUFFER_SIZE buf w of
        None \<Rightarrow> ([], Stall)
      | Some (rv, got, buf', w1) \<Rightarrow>
          if rv \<le> 0
          then emit [Read src BUFFER_SIZE got rv, Close src]
                 (and_then (socket_connect src_host src_port w1) (\<lambda>src' w2.
                    ([], Ret (dst, src', buf') w2)))
          else emit [Read src BUFFER_SIZE got rv]
            (case sys_write w1 of
               None \<Rightarrow> ([], Stall)
             | Some (rv', w2) \<Rightarrow>
                 if rv' \<le> 0
                 then emit [Write dst (take (nat rv) buf') rv', Close dst]
                        (and_then (socket_connect dst_host dst_port w2) (\<lambda>dst' w3.
                           ([], Ret (dst', src, buf') w3)))
                 else ([Write dst (take (nat rv) buf') rv'], Ret (dst, src, buf') w2)))"

text \<open>
  The measure under which the loop is defined: every pass uses up one answer of
  \<^verbatim>\<open>read\<close>, or at least one of the bytes an answer holds.
\<close>

fun rd_weight :: "rd \<Rightarrow> nat" where
  "rd_weight (Rd_data bs) = Suc (length bs)"
| "rd_weight (Rd_fail n) = 1"

definition read_credit :: "sys \<Rightarrow> nat" where
  "read_credit w = sum_list (map rd_weight (read_rs w))"

subsection \<open>What a connection attempt leaves alone\<close>

text \<open>
  The events of one failed \<^verbatim>\<open>socket\<close> call and of one failed \<^verbatim>\<open>connect\<close> call:
  the call, the warning, the sleep.
\<close>

definition socket_failure :: "string \<Rightarrow> int \<Rightarrow> sys \<Rightarrow> int \<Rightarrow> event list" where
  "socket_failure host port w r =
     [Socket r, xlog w LOG_WARNING (Failed_create_socket host port), Sleep RETRY_SLEEP]"

definition connect_failure :: "string \<Rightarrow> int \<Rightarrow> int \<Rightarrow> in_addr \<Rightarrow> sys \<Rightarrow> int \<Rightarrow> event list" where
  "connect_failure host port fd addr w r =
     [Connect fd addr (htons port) r, xlog w LOG_WARNING (Failed_connect host port),
      Sleep RETRY_SLEEP]"

text \<open>Two states agree on everything except the answers still due from the connector's calls.\<close>

definition same_io :: "sys \<Rightarrow> sys \<Rightarrow> bool" where
  "same_io w w' =
     (send_to_syslog w' = send_to_syslog w \<and> stack_bytes w' = stack_bytes w \<and>
      read_rs w' = read_rs w \<and> write_rs w' = write_rs w)"

lemma same_io_refl [simp]: "same_io w w"
  by (simp add: same_io_def)

lemma same_io_trans: "same_io w w1 \<Longrightarrow> same_io w1 w2 \<Longrightarrow> same_io w w2"
  by (simp add: same_io_def)

lemma emit_Nil [simp]: "emit [] r = r"
  by (simp add: emit_def)

lemma emit_emit [simp]: "emit es (emit es' r) = emit (es @ es') r"
  by (simp add: emit_def)

lemma emit_pair [simp]: "emit es (es', out) = (es @ es', out)"
  by (simp add: emit_def)

lemma fst_emit [simp]: "fst (emit es r) = es @ fst r"
  by (simp add: emit_def)

lemma snd_emit [simp]: "snd (emit es r) = snd r"
  by (simp add: emit_def)

lemma and_then_Ret [simp]: "and_then (es, Ret a w) f = emit es (f a w)"
  by (simp add: and_then_def)

lemma and_then_Exit [simp]: "and_then (es, Exit c) f = (es, Exit c)"
  by (simp add: and_then_def)

lemma and_then_Fault [simp]: "and_then (es, Fault) f = (es, Fault)"
  by (simp add: and_then_def)

lemma and_then_Stall [simp]: "and_then (es, Stall) f = (es, Stall)"
  by (simp add: and_then_def)

lemma and_then_emit [simp]: "and_then (emit es r) f = emit es (and_then r f)"
  by (cases r) (simp add: and_then_def emit_def split: result.splits)

lemma socket_failure_frame [simp]:
  "socket_failure host port (w\<lparr>socket_rs := rs\<rparr>) = socket_failure host port w"
  by (simp add: socket_failure_def fun_eq_iff xlog_def)

lemma connect_failure_frame [simp]:
  "connect_failure host port fd addr (w\<lparr>connect_rs := rs\<rparr>) = connect_failure host port fd addr w"
  by (simp add: connect_failure_def fun_eq_iff xlog_def)

lemma create_socket_Nil:
  "socket_rs w = [] \<Longrightarrow> create_socket host port w = ([], Stall)"
  by (simp add: create_socket.simps [of host port w] sys_socket_def)

lemma create_socket_ok:
  "socket_rs w = fd # rest \<Longrightarrow> 0 \<le> fd \<Longrightarrow>
   create_socket host port w = ([Socket fd], Ret fd (w\<lparr>socket_rs := rest\<rparr>))"
  by (simp add: create_socket.simps [of host port w] sys_socket_def)

lemma create_socket_fail:
  "socket_rs w = r # rest \<Longrightarrow> r < 0 \<Longrightarrow>
   create_socket host port w =
     emit (socket_failure host port w r) (create_socket host port (w\<lparr>socket_rs := rest\<rparr>))"
  by (simp add: create_socket.simps [of host port w] sys_socket_def socket_failure_def xlog_def)

lemma create_socket_fails:
  "socket_rs w = fs @ rest \<Longrightarrow> \<forall>r\<in>set fs. r < 0 \<Longrightarrow>
   create_socket host port w =
     emit (concat (map (socket_failure host port w) fs))
       (create_socket host port (w\<lparr>socket_rs := rest\<rparr>))"
proof (induction fs arbitrary: w)
  case Nil
  then have "w\<lparr>socket_rs := rest\<rparr> = w" by simp
  then show ?case by simp
next
  case (Cons r fs)
  let ?w1 = "w\<lparr>socket_rs := fs @ rest\<rparr>"
  have "create_socket host port w =
          emit (socket_failure host port w r) (create_socket host port ?w1)"
    using Cons.prems by (intro create_socket_fail) simp_all
  also have "create_socket host port ?w1 =
     emit (concat (map (socket_failure host port ?w1) fs))
       (create_socket host port (?w1\<lparr>socket_rs := rest\<rparr>))"
    using Cons.prems by (intro Cons.IH) simp_all
  finally show ?case by simp
qed

lemma connect_retry_Nil:
  "connect_rs w = [] \<Longrightarrow> connect_retry host port fd addr w = ([], Stall)"
  by (simp add: connect_retry.simps [of host port fd addr w] sys_connect_def)

lemma connect_retry_ok:
  "connect_rs w = rv # rest \<Longrightarrow> 0 \<le> rv \<Longrightarrow>
   connect_retry host port fd addr w =
     ([Connect fd addr (htons port) rv], Ret fd (w\<lparr>connect_rs := rest\<rparr>))"
  by (simp add: connect_retry.simps [of host port fd addr w] sys_connect_def)

lemma connect_retry_fail:
  "connect_rs w = r # rest \<Longrightarrow> r < 0 \<Longrightarrow>
   connect_retry host port fd addr w =
     emit (connect_failure host port fd addr w r)
       (connect_retry host port fd addr (w\<lparr>connect_rs := rest\<rparr>))"
  by (simp add: connect_retry.simps [of host port fd addr w] sys_connect_def
        connect_failure_def xlog_def)

lemma connect_retry_fails:
  "connect_rs w = fs @ rest \<Longrightarrow> \<forall>r\<in>set fs. r < 0 \<Longrightarrow>
   connect_retry host port fd addr w =
     emit (concat (map (connect_failure host port fd addr w) fs))
       (connect_retry host port fd addr (w\<lparr>connect_rs := rest\<rparr>))"
proof (induction fs arbitrary: w)
  case Nil
  then have "w\<lparr>connect_rs := rest\<rparr> = w" by simp
  then show ?case by simp
next
  case (Cons r fs)
  let ?w1 = "w\<lparr>connect_rs := fs @ rest\<rparr>"
  have "connect_retry host port fd addr w =
          emit (connect_failure host port fd addr w r) (connect_retry host port fd addr ?w1)"
    using Cons.prems by (intro connect_retry_fail) simp_all
  also have "connect_retry host port fd addr ?w1 =
     emit (concat (map (connect_failure host port fd addr ?w1) fs))
       (connect_retry host port fd addr (?w1\<lparr>connect_rs := rest\<rparr>))"
    using Cons.prems by (intro Cons.IH) simp_all
  finally show ?case by simp
qed

text \<open>Every list of results is a run of failures, alone or followed by a first success.\<close>

lemma failures_then_success:
  fixes xs :: "int list"
  obtains (all_fail) "\<forall>r\<in>set xs. r < 0"
  | (success) fs ok rest where "xs = fs @ ok # rest" "\<forall>r\<in>set fs. r < 0" "0 \<le> ok"
proof (cases "\<forall>r\<in>set xs. r < 0")
  case True
  then show ?thesis by (rule all_fail)
next
  case False
  then have "\<exists>x\<in>set xs. \<not> x < 0" by simp
  from split_list_first_prop [OF this]
  obtain fs ok rest where "xs = fs @ ok # rest" "\<not> ok < 0" "\<forall>r\<in>set fs. r < 0"
    by auto
  then show ?thesis by (intro success [of fs ok rest]) simp_all
qed

lemma create_socket_cases:
  obtains (stall) "\<forall>r\<in>set (socket_rs w). r < 0"
      "create_socket host port w =
         (concat (map (socket_failure host port w) (socket_rs w)), Stall)"
  | (ret) fs fd rest where "socket_rs w = fs @ fd # rest" "\<forall>r\<in>set fs. r < 0" "0 \<le> fd"
      "create_socket host port w =
         (concat (map (socket_failure host port w) fs) @ [Socket fd],
          Ret fd (w\<lparr>socket_rs := rest\<rparr>))"
proof (cases "socket_rs w" rule: failures_then_success)
  case all_fail
  have "create_socket host port w =
          emit (concat (map (socket_failure host port w) (socket_rs w)))
            (create_socket host port (w\<lparr>socket_rs := []\<rparr>))"
    using all_fail by (intro create_socket_fails) simp_all
  then have "create_socket host port w =
          (concat (map (socket_failure host port w) (socket_rs w)), Stall)"
    by (simp add: create_socket_Nil)
  with all_fail show ?thesis by (rule stall)
next
  case (success fs ok rest)
  have "create_socket host port w =
          emit (concat (map (socket_failure host port w) fs))
            (create_socket host port (w\<lparr>socket_rs := ok # rest\<rparr>))"
    using success by (intro create_socket_fails) simp_all
  also have "create_socket host port (w\<lparr>socket_rs := ok # rest\<rparr>) =
          ([Socket ok], Ret ok (w\<lparr>socket_rs := rest\<rparr>))"
    using success by (simp add: create_socket_ok [of _ ok rest])
  finally show ?thesis using success by (intro ret [of fs ok rest]) simp_all
qed

lemma connect_retry_cases:
  obtains (stall) "\<forall>r\<in>set (connect_rs w). r < 0"
      "connect_retry host port fd addr w =
         (concat (map (connect_failure host port fd addr w) (connect_rs w)), Stall)"
  | (ret) fs ok rest where "connect_rs w = fs @ ok # rest" "\<forall>r\<in>set fs. r < 0" "0 \<le> ok"
      "connect_retry host port fd addr w =
         (concat (map (connect_failure host port fd addr w) fs)
            @ [Connect fd addr (htons port) ok],
          Ret fd (w\<lparr>connect_rs := rest\<rparr>))"
proof (cases "connect_rs w" rule: failures_then_success)
  case all_fail
  have "connect_retry host port fd addr w =
          emit (concat (map (connect_failure host port fd addr w) (connect_rs w)))
            (connect_retry host port fd addr (w\<lparr>connect_rs := []\<rparr>))"
    using all_fail by (intro connect_retry_fails) simp_all
  then have "connect_retry host port fd addr w =
          (concat (map (connect_failure host port fd addr w) (connect_rs w)), Stall)"
    by (simp add: connect_retry_Nil)
  with all_fail show ?thesis by (rule stall)
next
  case (success fs ok rest)
  have "connect_retry host port fd addr w =
          emit (concat (map (connect_failure host port fd addr w) fs))
            (connect_retry host port fd addr (w\<lparr>connect_rs := ok # rest\<rparr>))"
    using success by (intro connect_retry_fails) simp_all
  also have "connect_retry host port fd addr (w\<lparr>connect_rs := ok # rest\<rparr>) =
          ([Connect fd addr (htons port) ok], Ret fd (w\<lparr>connect_rs := rest\<rparr>))"
    using success by (simp add: connect_retry_ok [of _ ok rest])
  finally show ?thesis using success by (intro ret [of fs ok rest]) simp_all
qed

lemma create_socket_same_io:
  "create_socket host port w = (es, Ret fd w') \<Longrightarrow> same_io w w'"
  by (rule create_socket_cases [of w host port]) (auto simp: same_io_def)

lemma connect_retry_same_io:
  "connect_retry host port fd addr w = (es, Ret fd' w') \<Longrightarrow> same_io w w'"
  by (rule connect_retry_cases [of w host port fd addr]) (auto simp: same_io_def)

lemma set_timeouts_same_io:
  "set_timeouts host port fd w = (es, Ret u w') \<Longrightarrow> same_io w w'"
  by (auto simp: set_timeouts_def sys_setsockopt_def same_io_def
           split: list.splits if_splits)

lemma resolve_same_io:
  "resolve host w = (es, Ret a w') \<Longrightarrow> same_io w w'"
  by (auto simp: resolve_def sys_gethostbyname2_def same_io_def
           split: list.splits option.splits)

lemma and_then_RetE:
  assumes "and_then r f = (es, Ret b w')"
  obtains es1 a w1 es2 where "r = (es1, Ret a w1)" "f a w1 = (es2, Ret b w')" "es = es1 @ es2"
proof (cases r)
  case (Pair es1 out)
  show ?thesis
  proof (cases out)
    case (Ret a w1)
    with assms Pair show ?thesis
      by (cases "f a w1") (auto intro: that)
  qed (use assms Pair in simp_all)
qed

lemma socket_connect_same_io:
  assumes "socket_connect host port w = (es, Ret fd w')"
  shows "same_io w w'"
proof -
  from assms [unfolded socket_connect_def] obtain es1 fd1 w1 es1' where
    a: "create_socket host port w = (es1, Ret fd1 w1)" and
    b: "and_then (set_timeouts host port fd1 w1)
          (\<lambda>_ w2. and_then (resolve host w2) (connect_retry host port fd1)) = (es1', Ret fd w')"
    by (rule and_then_RetE)
  from b obtain es2 u w2 es2' where
    c: "set_timeouts host port fd1 w1 = (es2, Ret u w2)" and
    d: "and_then (resolve host w2) (connect_retry host port fd1) = (es2', Ret fd w')"
    by (rule and_then_RetE)
  from d obtain es3 addr w3 es4 where
    e: "resolve host w2 = (es3, Ret addr w3)" and
    f: "connect_retry host port fd1 addr w3 = (es4, Ret fd w')"
    by (rule and_then_RetE)
  show ?thesis
    using create_socket_same_io [OF a] set_timeouts_same_io [OF c] resolve_same_io [OF e]
      connect_retry_same_io [OF f]
    by (simp add: same_io_def)
qed

lemma sys_read_credit:
  "sys_read count buf w = Some (rv, got, buf', w1) \<Longrightarrow> 0 < count \<Longrightarrow>
   read_credit w1 < read_credit w"
  by (auto simp: sys_read_def read_credit_def Let_def split: list.splits rd.splits if_splits)

lemma sys_write_read_credit:
  "sys_write w = Some (rv, w1) \<Longrightarrow> read_credit w1 = read_credit w"
  by (auto simp: sys_write_def read_credit_def split: list.splits)

lemma same_io_read_credit: "same_io w w' \<Longrightarrow> read_credit w' = read_credit w"
  by (simp add: same_io_def read_credit_def)

lemma relay_step_credit:
  assumes "relay_step src_host src_port dst_host dst_port dst src buf w = (es, Ret x w')"
  shows "read_credit w' < read_credit w"
proof (cases "sys_read BUFFER_SIZE buf w")
  case None
  with assms show ?thesis by (simp add: relay_step_def)
next
  case (Some p)
  obtain rv got buf' w1 where p: "p = (rv, got, buf', w1)" by (cases p)
  have c1: "read_credit w1 < read_credit w"
    using Some p by (auto intro: sys_read_credit simp: BUFFER_SIZE_def)
  show ?thesis
  proof (cases "rv \<le> 0")
    case True
    with assms Some p have
      "and_then (socket_connect src_host src_port w1) (\<lambda>src' w2. ([], Ret (dst, src', buf') w2))
         = (drop 2 es, Ret x w')"
      by (cases "and_then (socket_connect src_host src_port w1)
                   (\<lambda>src' w2. ([], Ret (dst, src', buf') w2))")
         (auto simp: relay_step_def)
    then obtain es1 a w2 es2 where
      "socket_connect src_host src_port w1 = (es1, Ret a w2)"
      "([], Ret (dst, a, buf') w2) = (es2, Ret x w')" "drop 2 es = es1 @ es2"
      by (rule and_then_RetE)
    then show ?thesis
      using c1 same_io_read_credit [OF socket_connect_same_io] by auto
  next
    case False
    show ?thesis
    proof (cases "sys_write w1")
      case None
      with assms Some p False show ?thesis by (simp add: relay_step_def)
    next
      case (Some q)
      obtain rv' w2 where q: "q = (rv', w2)" by (cases q)
      have c2: "read_credit w2 = read_credit w1"
        using Some q by (auto intro: sys_write_read_credit)
      show ?thesis
      proof (cases "rv' \<le> 0")
        case True
        with assms \<open>sys_read BUFFER_SIZE buf w = Some p\<close> p False Some q have
          "and_then (socket_connect dst_host dst_port w2) (\<lambda>dst' w3. ([], Ret (dst', src, buf') w3))
             = (drop 3 es, Ret x w')"
          by (cases "and_then (socket_connect dst_host dst_port w2)
                       (\<lambda>dst' w3. ([], Ret (dst', src, buf') w3))")
             (auto simp: relay_step_def)
        then obtain es1 a w3 es2 where
          "socket_connect dst_host dst_port w2 = (es1, Ret a w3)"
          "([], Ret (a, src, buf') w3) = (es2, Ret x w')" "drop 3 es = es1 @ es2"
          by (rule and_then_RetE)
        then show ?thesis
          using c1 c2 same_io_read_credit [OF socket_connect_same_io] by auto
      next
        case f: False
        with assms \<open>sys_read BUFFER_SIZE buf w = Some p\<close> p False Some q c1 c2 show ?thesis
          by (auto simp: relay_step_def)
      qed
    qed
  qed
qed

text \<open>The loop \<^verbatim>\<open>while (1)\<close> of \<^verbatim>\<open>main_loop\<close>: pass after pass, until the process ends.\<close>

function main_iter ::
  "string \<Rightarrow> int \<Rightarrow> string \<Rightarrow> int \<Rightarrow> int \<Rightarrow> int \<Rightarrow> char list \<Rightarrow> sys \<Rightarrow> unit run" where
  "main_iter src_host src_port dst_host dst_port dst src buf w =
     (case relay_step src_host src_port dst_host dst_port dst src buf w of
        (es, Ret (dst', src', buf') w') \<Rightarrow>
          emit es (main_iter src_host src_port dst_host dst_port dst' src' buf' w')
      | (es, Exit c) \<Rightarrow> (es, Exit c)
      | (es, Fault) \<Rightarrow> (es, Fault)
      | (es, Stall) \<Rightarrow> (es, Stall))"
  by pat_completeness auto
termination
  by (relation "measure (\<lambda>(sh, sp, dh, dp, dst, src, buf, w). read_credit w)")
     (auto dest: relay_step_credit [OF sym])

declare main_iter.simps [simp del]

definition main_loop :: "string \<Rightarrow> int \<Rightarrow> string \<Rightarrow> int \<Rightarrow> sys \<Rightarrow> unit run" where
  "main_loop src_host src_port dst_host dst_port w =
     and_then (socket_connect dst_host dst_port w) (\<lambda>dst w1.
     and_then (socket_connect src_host src_port w1) (\<lambda>src w2.
     main_iter src_host src_port dst_host dst_port dst src (stack_bytes w2) w2))"

subsection \<open>main\<close>

text \<open>
  \<^verbatim>\<open>strtoul(s, NULL, 10)\<close> of the C library, for a 64-bit \<^verbatim>\<open>unsigned long\<close>:
  white space is skipped, one sign is accepted, the longest run of decimal digits that
  follows (\<open>digits_of\<close>) is the number, and what comes after it is ignored. No digit
  gives \<open>0\<close>, a number beyond \<^verbatim>\<open>ULONG_MAX\<close> gives \<^verbatim>\<open>ULONG_MAX\<close>, a minus sign
  negates in \<^verbatim>\<open>unsigned long\<close>.
\<close>

definition isspace :: "char \<Rightarrow> bool" where
  "isspace c = (c \<in> set [CHR '' '', CHR 0x09, CHR 0x0A, CHR 0x0B, CHR 0x0C, CHR 0x0D])"

definition isdigit :: "char \<Rightarrow> bool" where
  "isdigit c = (c \<in> set ''0123456789'')"

definition ULONG_MAX :: int where
  "ULONG_MAX = 2 ^ 64 - 1"

fun decimal :: "int \<Rightarrow> string \<Rightarrow> int" where
  "decimal acc [] = acc"
| "decimal acc (c # cs) = decimal (acc * 10 + (of_char c - 48)) cs"

definition digits_of :: "string \<Rightarrow> string" where
  "digits_of s =
     (let s1 = dropWhile isspace s;
          s2 = (if s1 \<noteq> [] \<and> (hd s1 = CHR ''-'' \<or> hd s1 = CHR ''+'') then tl s1 else s1)
      in takeWhile isdigit s2)"

definition strtoul :: "string \<Rightarrow> int" where
  "strtoul s =
     (let s1 = dropWhile isspace s;
          neg = (s1 \<noteq> [] \<and> hd s1 = CHR ''-'');
          v = decimal 0 (digits_of s)
      in if ULONG_MAX < v then ULONG_MAX
         else if neg then (- v) mod 2 ^ 64
         else v)"

text \<open>
  The assignment of an \<^verbatim>\<open>unsigned long\<close> to an \<^verbatim>\<open>int\<close>: the low 32 bits, read
  as a signed number.
\<close>

definition to_int :: "int \<Rightarrow> int" where
  "to_int v = (v + 2 ^ 31) mod 2 ^ 32 - 2 ^ 31"

definition PACKAGE_STRING :: string where
  "PACKAGE_STRING = ''remote-dump1090 0''"

definition usage_text :: string where
  "usage_text =
     ''usage:\<newline>'' @
     ''    remote-dump1090 [-h] [-v] [-l] [-s SRC_PORT] [-d DST_PORT] '' @
     ''SRC_HOST DST_HOST\<newline>''"

definition help_text :: string where
  "help_text =
     ''\<newline>'' @
     ''remote-dump1090 - A helper to send data from a dump1090 instance to '' @
     ''another instance\<newline>'' @
     ''\<newline>'' @
     ''usage:\<newline>'' @
     ''    remote-dump1090 [-h] [-v] [-l] [-s SRC_PORT] [-d DST_PORT] '' @
     ''SRC_HOST DST_HOST\<newline>'' @
     ''\<newline>'' @
     ''positional arguments:\<newline>'' @
     ''    SRC_HOST      source instance host name\<newline>'' @
     ''    DST_HOST      destination instance host name\<newline>'' @
     ''\<newline>'' @
     ''optional arguments:\<newline>'' @
     ''    -h            show this help message and exit\<newline>'' @
     ''    -v            show version and exit\<newline>'' @
     ''    -l            send output messages to syslog\<newline>'' @
     ''    -s SRC_PORT   source instance port. defaults to 30002\<newline>'' @
     ''    -d DST_PORT   destination instance port. defaults to 30001\<newline>''"

text \<open>
  The code of \<^verbatim>\<open>main\<close> after the \<^verbatim>\<open>for\<close> loop, up to \<^verbatim>\<open>return rv\<close>. The
  hosts are \<open>None\<close> while the pointers are NULL.
\<close>

definition after_args :: "string option \<Rightarrow> string option \<Rightarrow> int \<Rightarrow> int \<Rightarrow> sys \<Rightarrow> int run" where
  "after_args src_host dst_host src_port dst_port w =
     (case src_host of
        None \<Rightarrow> ([Printf usage_text, xlog w LOG_ERR Src_host_required], Ret 2 w)
      | Some sh \<Rightarrow>
          (case dst_host of
             None \<Rightarrow> ([Printf usage_text, xlog w LOG_ERR Dst_host_required], Ret 2 w)
           | Some dh \<Rightarrow>
               and_then (main_loop sh src_port dh dst_port w) (\<lambda>_ w'. ([], Ret 0 w'))))"

text \<open>
  The \<^verbatim>\<open>for\<close> loop over \<^verbatim>\<open>argv[i]\<close>, from the argument at \<open>i\<close> on, followed by the
  rest of \<^verbatim>\<open>main\<close>. The first list holds \<^verbatim>\<open>argv[i]\<close> to \<^verbatim>\<open>argv[argc - 1]\<close>;
  after them comes \<^verbatim>\<open>argv[argc]\<close>, which is NULL, and \<^verbatim>\<open>strtoul\<close> reads through
  the pointer it is given. \<open>is_option\<close> is the test \<^verbatim>\<open>argv[i][0] == '-'\<close>. An
  argument that is the string \<^verbatim>\<open>-\<close> has the terminating zero as its second character.
\<close>

definition is_option :: "string \<Rightarrow> bool" where
  "is_option a = (a \<noteq> [] \<and> hd a = CHR ''-'')"

fun arg_loop ::
  "string list \<Rightarrow> string option \<Rightarrow> string option \<Rightarrow> int \<Rightarrow> int \<Rightarrow> sys \<Rightarrow> int run" where
  "arg_loop [] src_host dst_host src_port dst_port w =
     after_args src_host dst_host src_port dst_port w"
| "arg_loop (a # as) src_host dst_host src_port dst_port w =
     (if is_option a
      then
        (let c = (if tl a = [] then CHR 0x00 else hd (tl a)); val = tl (tl a)
         in if c = CHR ''h'' then ([Printf help_text], Ret 0 w)
            else if c = CHR ''v'' then ([Printf (PACKAGE_STRING @ ''\<newline>'')], Ret 0 w)
            else if c = CHR ''l''
              then arg_loop as src_host dst_host src_port dst_port (w\<lparr>send_to_syslog := True\<rparr>)
            else if c = CHR ''s''
              then (if val \<noteq> []
                    then arg_loop as src_host dst_host (to_int (strtoul val)) dst_port w
                    else (case as of
                            [] \<Rightarrow> ([], Fault)
                          | v # as' \<Rightarrow>
                              arg_loop as' src_host dst_host (to_int (strtoul v)) dst_port w))
            else if c = CHR ''d''
              then (if val \<noteq> []
                    then arg_loop as src_host dst_host src_port (to_int (strtoul val)) w
                    else (case as of
                            [] \<Rightarrow> ([], Fault)
                          | v # as' \<Rightarrow>
                              arg_loop as' src_host dst_host src_port (to_int (strtoul v)) w))
            else ([Printf usage_text, xlog w LOG_ERR (Invalid_argument c)], Ret 2 w))
      else if src_host = None
        then arg_loop as (Some a) dst_host src_port dst_port w
      else if dst_host = None
        then arg_loop as src_host (Some a) src_port dst_port w
      else arg_loop as src_host dst_host src_port dst_port w)"

definition main :: "string list \<Rightarrow> sys \<Rightarrow> int run" where
  "main argv w =
     emit [Signal_ignore_SIGPIPE] (arg_loop (drop 1 argv) None None 30002 30001 w)"

section \<open>The connector\<close>

text \<open>
  The events of a call of \<^verbatim>\<open>socket_connect\<close> that returns: the failed
  \<^verbatim>\<open>socket\<close> calls, the one that succeeds, the two timeouts, the resolution with its
  warning when the host has a second address, the refused \<^verbatim>\<open>connect\<close> calls, the one
  that is accepted.
\<close>

definition connected_trace ::
  "string \<Rightarrow> int \<Rightarrow> sys \<Rightarrow> int list \<Rightarrow> int \<Rightarrow> int \<Rightarrow> int \<Rightarrow> hostent \<Rightarrow> in_addr \<Rightarrow> bool
     \<Rightarrow> int list \<Rightarrow> int \<Rightarrow> event list" where
  "connected_trace host port w sfails fd r1 r2 h a many cfails ok =
     concat (map (socket_failure host port w) sfails) @
     [Socket fd,
      Setsockopt fd SO_RCVTIMEO SOCKET_TIMEOUT 0 r1,
      Setsockopt fd SO_SNDTIMEO SOCKET_TIMEOUT 0 r2,
      Gethostbyname2 host (Some h)] @
     (if many then [xlog w LOG_WARNING (Multiple_ipv4 a)] else []) @
     concat (map (connect_failure host port fd a w) cfails) @
     [Connect fd a (htons port) ok]"

lemma xlog_frame [simp]:
  "xlog (w\<lparr>socket_rs := ss\<rparr>) = xlog w"
  "xlog (w\<lparr>setsockopt_rs := os\<rparr>) = xlog w"
  "xlog (w\<lparr>gethostbyname2_rs := ds\<rparr>) = xlog w"
  "xlog (w\<lparr>connect_rs := cs\<rparr>) = xlog w"
  "xlog (w\<lparr>read_rs := rs\<rparr>) = xlog w"
  "xlog (w\<lparr>write_rs := ws\<rparr>) = xlog w"
  by (simp_all add: xlog_def fun_eq_iff)

lemma connect_failure_frame' [simp]:
  "connect_failure host port fd a (w\<lparr>socket_rs := ss\<rparr>) = connect_failure host port fd a w"
  "connect_failure host port fd a (w\<lparr>setsockopt_rs := os\<rparr>) = connect_failure host port fd a w"
  "connect_failure host port fd a (w\<lparr>gethostbyname2_rs := ds\<rparr>) = connect_failure host port fd a w"
  by (simp_all add: connect_failure_def fun_eq_iff)

lemma set_timeouts_ok:
  "setsockopt_rs w = r1 # r2 # orest \<Longrightarrow> 0 \<le> r1 \<Longrightarrow> 0 \<le> r2 \<Longrightarrow>
   set_timeouts host port fd w =
     ([Setsockopt fd SO_RCVTIMEO SOCKET_TIMEOUT 0 r1,
       Setsockopt fd SO_SNDTIMEO SOCKET_TIMEOUT 0 r2], Ret () (w\<lparr>setsockopt_rs := orest\<rparr>))"
  by (simp add: set_timeouts_def sys_setsockopt_def)

lemma resolve_ok:
  "gethostbyname2_rs w = Some h # drest \<Longrightarrow> h_addr_list h = Some (a # others) \<Longrightarrow>
   resolve host w =
     (Gethostbyname2 host (Some h) #
        (if others \<noteq> [] then [xlog w LOG_WARNING (Multiple_ipv4 a)] else []),
      Ret a (w\<lparr>gethostbyname2_rs := drest\<rparr>))"
  by (cases others) (simp_all add: resolve_def sys_gethostbyname2_def)

lemma socket_connect_script:
  assumes s: "socket_rs w = sfails @ fd # srest" "\<forall>r\<in>set sfails. r < 0" "0 \<le> fd"
    and t: "setsockopt_rs w = r1 # r2 # orest" "0 \<le> r1" "0 \<le> r2"
    and d: "gethostbyname2_rs w = Some h # drest" "h_addr_list h = Some (a # others)"
    and c: "connect_rs w = cfails @ ok # crest" "\<forall>r\<in>set cfails. r < 0" "0 \<le> ok"
  shows "socket_connect host port w =
           (connected_trace host port w sfails fd r1 r2 h a (others \<noteq> []) cfails ok,
            Ret fd (w\<lparr>socket_rs := srest, setsockopt_rs := orest,
                      gethostbyname2_rs := drest, connect_rs := crest\<rparr>))"
proof -
  let ?w1 = "w\<lparr>socket_rs := srest\<rparr>"
  let ?w2 = "?w1\<lparr>setsockopt_rs := orest\<rparr>"
  let ?w3 = "?w2\<lparr>gethostbyname2_rs := drest\<rparr>"
  have "create_socket host port w =
          emit (concat (map (socket_failure host port w) sfails))
            (create_socket host port (w\<lparr>socket_rs := fd # srest\<rparr>))"
    using s by (intro create_socket_fails) simp_all
  also have "create_socket host port (w\<lparr>socket_rs := fd # srest\<rparr>) =
          ([Socket fd], Ret fd ?w1)"
    using s by (simp add: create_socket_ok [of _ fd srest])
  finally have 1: "create_socket host port w =
          (concat (map (socket_failure host port w) sfails) @ [Socket fd], Ret fd ?w1)"
    by simp
  have 2: "set_timeouts host port fd ?w1 =
     ([Setsockopt fd SO_RCVTIMEO SOCKET_TIMEOUT 0 r1,
       Setsockopt fd SO_SNDTIMEO SOCKET_TIMEOUT 0 r2], Ret () ?w2)"
    using t by (intro set_timeouts_ok) simp_all
  have 3: "resolve host ?w2 =
     (Gethostbyname2 host (Some h) #
        (if others \<noteq> [] then [xlog w LOG_WARNING (Multiple_ipv4 a)] else []), Ret a ?w3)"
    using d resolve_ok [of ?w2 h drest a others host] by simp
  have "connect_retry host port fd a ?w3 =
          emit (concat (map (connect_failure host port fd a ?w3) cfails))
            (connect_retry host port fd a (?w3\<lparr>connect_rs := ok # crest\<rparr>))"
    using c by (intro connect_retry_fails) simp_all
  also have "connect_retry host port fd a (?w3\<lparr>connect_rs := ok # crest\<rparr>) =
          ([Connect fd a (htons port) ok], Ret fd (?w3\<lparr>connect_rs := crest\<rparr>))"
    using c by (simp add: connect_retry_ok [of _ ok crest])
  finally have 4: "connect_retry host port fd a ?w3 =
          (concat (map (connect_failure host port fd a w) cfails) @ [Connect fd a (htons port) ok],
           Ret fd (?w3\<lparr>connect_rs := crest\<rparr>))"
    by simp
  show ?thesis
    by (simp add: socket_connect_def 1 2 3 4 connected_trace_def)
qed


lemma create_socket_RetE:
  assumes "create_socket host port w = (es, Ret fd w')"
  obtains sfails srest where "socket_rs w = sfails @ fd # srest" "\<forall>r\<in>set sfails. r < 0" "0 \<le> fd"
    "w' = w\<lparr>socket_rs := srest\<rparr>"
  using assms by (rule_tac create_socket_cases [of w host port]) auto

lemma connect_retry_RetE:
  assumes "connect_retry host port fd a w = (es, Ret fd' w')"
  obtains cfails ok crest where "connect_rs w = cfails @ ok # crest" "\<forall>r\<in>set cfails. r < 0"
    "0 \<le> ok" "fd' = fd" "w' = w\<lparr>connect_rs := crest\<rparr>"
  using assms by (rule_tac connect_retry_cases [of w host port fd a]) auto

lemma set_timeouts_RetE:
  assumes "set_timeouts host port fd w = (es, Ret u w')"
  obtains r1 r2 orest where "setsockopt_rs w = r1 # r2 # orest" "0 \<le> r1" "0 \<le> r2"
    "w' = w\<lparr>setsockopt_rs := orest\<rparr>"
  using assms
  by (auto simp: set_timeouts_def sys_setsockopt_def split: list.splits if_splits)

lemma resolve_RetE:
  assumes "resolve host w = (es, Ret a w')"
  obtains h others drest where "gethostbyname2_rs w = Some h # drest"
    "h_addr_list h = Some (a # others)" "w' = w\<lparr>gethostbyname2_rs := drest\<rparr>"
  using assms
  by (auto simp: resolve_def sys_gethostbyname2_def split: list.splits option.splits)

lemma socket_connect_RetE:
  assumes "socket_connect host port w = (es, Ret fd w')"
  obtains sfails srest r1 r2 orest h a others drest cfails ok crest where
    "socket_rs w = sfails @ fd # srest" "\<forall>r\<in>set sfails. r < 0" "0 \<le> fd"
    "setsockopt_rs w = r1 # r2 # orest" "0 \<le> r1" "0 \<le> r2"
    "gethostbyname2_rs w = Some h # drest" "h_addr_list h = Some (a # others)"
    "connect_rs w = cfails @ ok # crest" "\<forall>r\<in>set cfails. r < 0" "0 \<le> ok"
    "es = connected_trace host port w sfails fd r1 r2 h a (others \<noteq> []) cfails ok"
    "w' = w\<lparr>socket_rs := srest, setsockopt_rs := orest,
              gethostbyname2_rs := drest, connect_rs := crest\<rparr>"
proof -
  from assms [unfolded socket_connect_def] obtain es1 fd1 w1 es1' where
    a: "create_socket host port w = (es1, Ret fd1 w1)" and
    b: "and_then (set_timeouts host port fd1 w1)
          (\<lambda>_ w2. and_then (resolve host w2) (connect_retry host port fd1)) = (es1', Ret fd w')"
    by (rule and_then_RetE)
  from b obtain es2 u w2 es2' where
    c: "set_timeouts host port fd1 w1 = (es2, Ret u w2)" and
    d: "and_then (resolve host w2) (connect_retry host port fd1) = (es2', Ret fd w')"
    by (rule and_then_RetE)
  from d obtain es3 addr w3 es4 where
    e: "resolve host w2 = (es3, Ret addr w3)" and
    f: "connect_retry host port fd1 addr w3 = (es4, Ret fd w')"
    by (rule and_then_RetE)
  from a obtain sfails srest where
    1: "socket_rs w = sfails @ fd1 # srest" "\<forall>r\<in>set sfails. r < 0" "0 \<le> fd1"
      "w1 = w\<lparr>socket_rs := srest\<rparr>"
    by (rule create_socket_RetE)
  from c obtain r1 r2 orest where
    2: "setsockopt_rs w1 = r1 # r2 # orest" "0 \<le> r1" "0 \<le> r2"
      "w2 = w1\<lparr>setsockopt_rs := orest\<rparr>"
    by (rule set_timeouts_RetE)
  from e obtain h others drest where
    3: "gethostbyname2_rs w2 = Some h # drest" "h_addr_list h = Some (addr # others)"
      "w3 = w2\<lparr>gethostbyname2_rs := drest\<rparr>"
    by (rule resolve_RetE)
  from f obtain cfails ok crest where
    4: "connect_rs w3 = cfails @ ok # crest" "\<forall>r\<in>set cfails. r < 0" "0 \<le> ok" "fd = fd1"
      "w' = w3\<lparr>connect_rs := crest\<rparr>"
    by (rule connect_retry_RetE)
  have s: "socket_rs w = sfails @ fd # srest" "0 \<le> fd"
    and t: "setsockopt_rs w = r1 # r2 # orest"
    and g: "gethostbyname2_rs w = Some h # drest"
    and k: "connect_rs w = cfails @ ok # crest"
    using 1 2 3 4 by simp_all
  from socket_connect_script [OF s(1) 1(2) s(2) t 2(2,3) g 3(2) k 4(2,3), of host port] assms
  have tr: "es = connected_trace host port w sfails fd r1 r2 h addr (others \<noteq> []) cfails ok"
    and st: "w' = w\<lparr>socket_rs := srest, setsockopt_rs := orest,
              gethostbyname2_rs := drest, connect_rs := crest\<rparr>"
    by simp_all
  show ?thesis
    by (rule that [OF s(1) 1(2) s(2) t 2(2) 2(3) g 3(2) k 4(2) 4(3) tr st])
qed


text \<open>
  The place of each library call in the text of \<^verbatim>\<open>socket_connect\<close>, and the place the
  specification gives it.
\<close>

fun code_step :: "event \<Rightarrow> nat option" where
  "code_step (Socket r) = Some 1"
| "code_step (Setsockopt fd opt s u r) = Some 2"
| "code_step (Gethostbyname2 host r) = Some 3"
| "code_step (Connect fd a p r) = Some 4"
| "code_step _ = None"

fun spec_step :: "event \<Rightarrow> nat option" where
  "spec_step (Gethostbyname2 host r) = Some 1"
| "spec_step (Socket r) = Some 2"
| "spec_step (Setsockopt fd opt s u r) = Some 3"
| "spec_step (Connect fd a p r) = Some 4"
| "spec_step _ = None"

text \<open>
  The calls whose failure ends the process: a \<^verbatim>\<open>setsockopt\<close> that returns a negative
  value, a \<^verbatim>\<open>gethostbyname2\<close> that gives no address.
\<close>

fun fatal_call :: "event \<Rightarrow> bool" where
  "fatal_call (Setsockopt fd opt s u r) = (r < 0)"
| "fatal_call (Gethostbyname2 host r) =
     (case r of None \<Rightarrow> True
      | Some h \<Rightarrow> (case h_addr_list h of None \<Rightarrow> True | Some as \<Rightarrow> as = []))"
| "fatal_call _ = False"

fun error_line :: "event \<Rightarrow> bool" where
  "error_line (Vsyslog p m) = (p = LOG_ERR)"
| "error_line (Stderr l m) = (l = ''error'')"
| "error_line _ = False"

lemma code_step_xlog [simp]: "code_step (xlog w p m) = None"
  by (simp add: xlog_def)

lemma fatal_call_xlog [simp]: "\<not> fatal_call (xlog w p m)"
  by (simp add: xlog_def)

lemma error_line_xlog [simp]: "error_line (xlog w LOG_ERR m)"
  by (simp add: xlog_def LOG_ERR_def LOG_WARNING_def)

lemma fst_and_then:
  "fst (and_then r f) = fst r @ (case snd r of Ret a w \<Rightarrow> fst (f a w) | _ \<Rightarrow> [])"
  by (simp add: and_then_def split: result.splits)

lemma create_socket_events:
  assumes "e \<in> set (fst (create_socket host port w))"
  shows "(\<exists>r. e = Socket r) \<or> e = xlog w LOG_WARNING (Failed_create_socket host port) \<or>
         e = Sleep RETRY_SLEEP"
  using assms
  by (rule_tac create_socket_cases [of w host port]) (auto simp: socket_failure_def)

lemma connect_retry_events:
  assumes "e \<in> set (fst (connect_retry host port fd a w))"
  shows "(\<exists>r. e = Connect fd a (htons port) r) \<or>
         e = xlog w LOG_WARNING (Failed_connect host port) \<or> e = Sleep RETRY_SLEEP"
  using assms
  by (rule_tac connect_retry_cases [of w host port fd a]) (auto simp: connect_failure_def)

lemma set_timeouts_events:
  assumes "e \<in> set (fst (set_timeouts host port fd w))"
  shows "(\<exists>opt r. e = Setsockopt fd opt SOCKET_TIMEOUT 0 r) \<or>
         e = xlog w LOG_ERR (Failed_read_timeout host port) \<or>
         e = xlog w LOG_ERR (Failed_write_timeout host port)"
  using assms
  by (auto simp: set_timeouts_def sys_setsockopt_def split: list.splits if_splits)

lemma resolve_events:
  assumes "e \<in> set (fst (resolve host w))"
  shows "(\<exists>r. e = Gethostbyname2 host r) \<or> (\<exists>p m. e = xlog w p m)"
  using assms
  by (auto simp: resolve_def sys_gethostbyname2_def split: list.splits option.splits)

text \<open>
  The events of \<^verbatim>\<open>socket_connect\<close> are those of its four parts, one part after the
  other, as far as the run gets.
\<close>

lemma socket_connect_parts:
  obtains es1 es2 es3 es4 where
    "fst (socket_connect host port w) = es1 @ es2 @ es3 @ es4"
    "\<forall>e\<in>set es1. (\<exists>r. e = Socket r) \<or> e = xlog w LOG_WARNING (Failed_create_socket host port)
        \<or> e = Sleep RETRY_SLEEP"
    "\<forall>e\<in>set es2. (\<exists>fd opt r. e = Setsockopt fd opt SOCKET_TIMEOUT 0 r) \<or>
        e = xlog w LOG_ERR (Failed_read_timeout host port) \<or>
        e = xlog w LOG_ERR (Failed_write_timeout host port)"
    "\<forall>e\<in>set es3. (\<exists>r. e = Gethostbyname2 host r) \<or> (\<exists>p m. e = xlog w p m)"
    "\<forall>e\<in>set es4. (\<exists>fd a r. e = Connect fd a (htons port) r) \<or>
        e = xlog w LOG_WARNING (Failed_connect host port) \<or> e = Sleep RETRY_SLEEP"
proof -
  obtain es1 out1 where 1: "create_socket host port w = (es1, out1)"
    by (cases "create_socket host port w")
  have p1: "\<forall>e\<in>set es1. (\<exists>r. e = Socket r) \<or> e = xlog w LOG_WARNING (Failed_create_socket host port)
        \<or> e = Sleep RETRY_SLEEP"
    using create_socket_events [of _ host port w] 1 by auto
  show ?thesis
  proof (cases out1)
    case (Ret fd w1)
    have io1: "same_io w w1" using 1 Ret by (auto dest: create_socket_same_io)
    then have x1: "xlog w1 = xlog w" by (simp add: same_io_def xlog_def fun_eq_iff)
    obtain es2 out2 where 2: "set_timeouts host port fd w1 = (es2, out2)"
      by (cases "set_timeouts host port fd w1")
    have p2: "\<forall>e\<in>set es2. (\<exists>fd opt r. e = Setsockopt fd opt SOCKET_TIMEOUT 0 r) \<or>
        e = xlog w LOG_ERR (Failed_read_timeout host port) \<or>
        e = xlog w LOG_ERR (Failed_write_timeout host port)"
      using set_timeouts_events [of _ host port fd w1] 2 x1 by auto
    show ?thesis
    proof (cases out2)
      case r2: (Ret u w2)
      have io2: "same_io w1 w2" using 2 r2 by (auto dest: set_timeouts_same_io)
      then have x2: "xlog w2 = xlog w" using x1 by (simp add: same_io_def xlog_def fun_eq_iff)
      obtain es3 out3 where 3: "resolve host w2 = (es3, out3)"
        by (cases "resolve host w2")
      have p3: "\<forall>e\<in>set es3. (\<exists>r. e = Gethostbyname2 host r) \<or> (\<exists>p m. e = xlog w p m)"
        using resolve_events [of _ host w2] 3 x2 by auto
      show ?thesis
      proof (cases out3)
        case r3: (Ret a w3)
        have io3: "same_io w2 w3" using 3 r3 by (auto dest: resolve_same_io)
        then have x3: "xlog w3 = xlog w" using x2 by (simp add: same_io_def xlog_def fun_eq_iff)
        have p4: "\<forall>e\<in>set (fst (connect_retry host port fd a w3)).
            (\<exists>fd a r. e = Connect fd a (htons port) r) \<or>
            e = xlog w LOG_WARNING (Failed_connect host port) \<or> e = Sleep RETRY_SLEEP"
          using connect_retry_events [of _ host port fd a w3] x3 by auto
        have "fst (socket_connect host port w) =
                es1 @ es2 @ es3 @ fst (connect_retry host port fd a w3)"
          by (simp add: socket_connect_def 1 Ret 2 r2 3 r3)
        then show ?thesis using p1 p2 p3 p4 by (rule that)
      next
        case (Exit c)
        then have "fst (socket_connect host port w) = es1 @ es2 @ es3 @ []"
          by (simp add: socket_connect_def 1 Ret 2 r2 3)
        then show ?thesis using p1 p2 p3 by (rule that) simp
      next
        case Fault
        then have "fst (socket_connect host port w) = es1 @ es2 @ es3 @ []"
          by (simp add: socket_connect_def 1 Ret 2 r2 3)
        then show ?thesis using p1 p2 p3 by (rule that) simp
      next
        case Stall
        then have "fst (socket_connect host port w) = es1 @ es2 @ es3 @ []"
          by (simp add: socket_connect_def 1 Ret 2 r2 3)
        then show ?thesis using p1 p2 p3 by (rule that) simp
      qed
    next
      case (Exit c)
      then have "fst (socket_connect host port w) = es1 @ es2 @ [] @ []"
        by (simp add: socket_connect_def 1 Ret 2)
      then show ?thesis using p1 p2 by (rule that) simp_all
    next
      case Fault
      then have "fst (socket_connect host port w) = es1 @ es2 @ [] @ []"
        by (simp add: socket_connect_def 1 Ret 2)
      then show ?thesis using p1 p2 by (rule that) simp_all
    next
      case Stall
      then have "fst (socket_connect host port w) = es1 @ es2 @ [] @ []"
        by (simp add: socket_connect_def 1 Ret 2)
      then show ?thesis using p1 p2 by (rule that) simp_all
    qed
  next
    case (Exit c)
    then have "fst (socket_connect host port w) = es1 @ [] @ [] @ []"
      by (simp add: socket_connect_def 1)
    then show ?thesis using p1 by (rule that) simp_all
  next
    case Fault
    then have "fst (socket_connect host port w) = es1 @ [] @ [] @ []"
      by (simp add: socket_connect_def 1)
    then show ?thesis using p1 by (rule that) simp_all
  next
    case Stall
    then have "fst (socket_connect host port w) = es1 @ [] @ [] @ []"
      by (simp add: socket_connect_def 1)
    then show ?thesis using p1 by (rule that) simp_all
  qed
qed

lemma map_filter_append: "List.map_filter f (xs @ ys) = List.map_filter f xs @ List.map_filter f ys"
  by (simp add: List.map_filter_def)

lemma set_map_filter: "set (List.map_filter f xs) = {y. \<exists>x\<in>set xs. f x = Some y}"
  by (induction xs) (auto split: option.splits)

lemma sorted_constant: "set xs \<subseteq> {n} \<Longrightarrow> sorted (xs :: nat list)"
  by (induction xs) auto

lemma socket_connect_steps_sorted:
  "sorted (List.map_filter code_step (fst (socket_connect host port w)))"
proof -
  obtain es1 es2 es3 es4 where
    es: "fst (socket_connect host port w) = es1 @ es2 @ es3 @ es4" and
    1: "\<forall>e\<in>set es1. (\<exists>r. e = Socket r) \<or> e = xlog w LOG_WARNING (Failed_create_socket host port)
        \<or> e = Sleep RETRY_SLEEP" and
    2: "\<forall>e\<in>set es2. (\<exists>fd opt r. e = Setsockopt fd opt SOCKET_TIMEOUT 0 r) \<or>
        e = xlog w LOG_ERR (Failed_read_timeout host port) \<or>
        e = xlog w LOG_ERR (Failed_write_timeout host port)" and
    3: "\<forall>e\<in>set es3. (\<exists>r. e = Gethostbyname2 host r) \<or> (\<exists>p m. e = xlog w p m)" and
    4: "\<forall>e\<in>set es4. (\<exists>fd a r. e = Connect fd a (htons port) r) \<or>
        e = xlog w LOG_WARNING (Failed_connect host port) \<or> e = Sleep RETRY_SLEEP"
    by (rule socket_connect_parts)
  have s1: "set (List.map_filter code_step es1) \<subseteq> {1}"
    using 1 by (auto simp: set_map_filter)
  have s2: "set (List.map_filter code_step es2) \<subseteq> {2}"
    using 2 by (auto simp: set_map_filter)
  have s3: "set (List.map_filter code_step es3) \<subseteq> {3}"
    using 3 by (auto simp: set_map_filter)
  have s4: "set (List.map_filter code_step es4) \<subseteq> {4}"
    using 4 by (auto simp: set_map_filter)
  show ?thesis
    unfolding es map_filter_append sorted_append
    using s1 s2 s3 s4 sorted_constant [OF s1] sorted_constant [OF s2]
      sorted_constant [OF s3] sorted_constant [OF s4]
    by fastforce
qed


lemma socket_connect_steps_all:
  assumes "socket_connect host port w = (es, Ret fd w')"
  shows "set (List.map_filter code_step es) = {1, 2, 3, 4}"
proof -
  from assms obtain sfails r1 r2 h a many cfails ok where
    "es = connected_trace host port w sfails fd r1 r2 h a many cfails ok"
    by (rule socket_connect_RetE)
  then show ?thesis
    unfolding set_map_filter
    by (auto simp: connected_trace_def socket_failure_def connect_failure_def
          intro: exI [of _ "Socket fd"])
qed


text \<open>
  A run ends in \<^verbatim>\<open>exit\<close> exactly when it has made a fatal call; the status is 1, and
  the run consists of the events before the call, the call and one line at error level.
\<close>

definition exits_on_fatal :: "'a run \<Rightarrow> bool" where
  "exits_on_fatal r =
     (((\<exists>c. snd r = Exit c) \<longleftrightarrow> list_ex fatal_call (fst r)) \<and> snd r \<noteq> Fault \<and>
      (\<forall>c. snd r = Exit c \<longrightarrow>
         c = 1 \<and> (\<exists>pre call line. fst r = pre @ [call, line] \<and> fatal_call call \<and>
                    error_line line \<and> \<not> list_ex fatal_call pre)))"

lemma exits_on_fatal_and_then:
  assumes "exits_on_fatal r" "\<And>a w. exits_on_fatal (f a w)"
  shows "exits_on_fatal (and_then r f)"
proof (cases r)
  case (Pair es out)
  show ?thesis
  proof (cases out)
    case (Ret a w)
    have nf: "\<not> list_ex fatal_call es"
      using assms(1) Pair Ret by (simp add: exits_on_fatal_def)
    obtain es' out' where f: "f a w = (es', out')" by (cases "f a w")
    have g: "exits_on_fatal (es', out')" using assms(2) [of a w] f by simp
    have r: "and_then r f = (es @ es', out')"
      by (simp add: Pair Ret f)
    have 1: "(\<exists>c. out' = Exit c) \<longleftrightarrow> list_ex fatal_call (es @ es')"
      using g nf by (simp add: exits_on_fatal_def)
    have 2: "out' \<noteq> Fault"
      using g by (simp add: exits_on_fatal_def)
    have 3: "c = 1 \<and> (\<exists>pre call line. es @ es' = pre @ [call, line] \<and> fatal_call call \<and>
                    error_line line \<and> \<not> list_ex fatal_call pre)" if "out' = Exit c" for c
    proof -
      from g that obtain pre call line where c: "c = 1" and
        p: "es' = pre @ [call, line]" "fatal_call call" "error_line line"
          "\<not> list_ex fatal_call pre"
        unfolding exits_on_fatal_def by fastforce
      have "es @ es' = (es @ pre) @ [call, line]" using p(1) by simp
      moreover have "\<not> list_ex fatal_call (es @ pre)" using nf p(4) by simp
      ultimately show ?thesis using c p(2,3) by blast
    qed
    show ?thesis
      unfolding r exits_on_fatal_def fst_conv snd_conv using 1 2 3 by blast
  next
    case (Exit c)
    then show ?thesis using assms(1) Pair by (simp add: exits_on_fatal_def)
  next
    case Fault
    then show ?thesis using assms(1) Pair by (simp add: exits_on_fatal_def)
  next
    case Stall
    then show ?thesis using assms(1) Pair by (simp add: exits_on_fatal_def)
  qed
qed

lemma exits_on_fatal_create_socket: "exits_on_fatal (create_socket host port w)"
  by (rule create_socket_cases [of w host port])
     (auto simp: exits_on_fatal_def socket_failure_def list_ex_iff)

lemma exits_on_fatal_connect_retry: "exits_on_fatal (connect_retry host port fd a w)"
  by (rule connect_retry_cases [of w host port fd a])
     (auto simp: exits_on_fatal_def connect_failure_def list_ex_iff)



lemma fatal_pair:
  "fatal_call x \<Longrightarrow> error_line y \<Longrightarrow>
   \<exists>pre call line. [x, y] = pre @ [call, line] \<and> fatal_call call \<and> error_line line \<and>
     \<not> list_ex fatal_call pre"
  by (intro exI [of _ "[]"] exI [of _ x] exI [of _ y]) simp

lemma fatal_triple:
  "\<not> fatal_call u \<Longrightarrow> fatal_call x \<Longrightarrow> error_line y \<Longrightarrow>
   \<exists>pre call line. [u, x, y] = pre @ [call, line] \<and> fatal_call call \<and> error_line line \<and>
     \<not> list_ex fatal_call pre"
  by (intro exI [of _ "[u]"] exI [of _ x] exI [of _ y]) simp

lemma exits_on_fatal_set_timeouts: "exits_on_fatal (set_timeouts host port fd w)"
proof (cases "setsockopt_rs w")
  case Nil
  then show ?thesis
    by (simp add: exits_on_fatal_def set_timeouts_def sys_setsockopt_def)
next
  case (Cons r1 rs)
  show ?thesis
  proof (cases "r1 < 0")
    case True
    then show ?thesis
      using Cons fatal_pair [of "Setsockopt fd SO_RCVTIMEO SOCKET_TIMEOUT 0 r1"
          "xlog (w\<lparr>setsockopt_rs := rs\<rparr>) LOG_ERR (Failed_read_timeout host port)"]
      by (simp add: exits_on_fatal_def set_timeouts_def sys_setsockopt_def)
  next
    case False
    show ?thesis
    proof (cases rs)
      case Nil
      then show ?thesis
        using Cons False
        by (simp add: exits_on_fatal_def set_timeouts_def sys_setsockopt_def)
    next
      case c2: (Cons r2 rs')
      show ?thesis
      proof (cases "r2 < 0")
        case True
        then show ?thesis
          using Cons False c2
            fatal_triple [of "Setsockopt fd SO_RCVTIMEO SOCKET_TIMEOUT 0 r1"
              "Setsockopt fd SO_SNDTIMEO SOCKET_TIMEOUT 0 r2"
              "xlog (w\<lparr>setsockopt_rs := rs'\<rparr>) LOG_ERR (Failed_write_timeout host port)"]
          by (simp add: exits_on_fatal_def set_timeouts_def sys_setsockopt_def)
      next
        case f2: False
        then show ?thesis
          using Cons False c2
          by (simp add: exits_on_fatal_def set_timeouts_def sys_setsockopt_def)
      qed
    qed
  qed
qed


lemma exits_on_fatal_resolve: "exits_on_fatal (resolve host w)"
proof (cases "gethostbyname2_rs w")
  case Nil
  then show ?thesis
    by (simp add: exits_on_fatal_def resolve_def sys_gethostbyname2_def)
next
  case (Cons r rs)
  let ?w = "w\<lparr>gethostbyname2_rs := rs\<rparr>"
  show ?thesis
  proof (cases r)
    case None
    then show ?thesis
      using Cons fatal_pair [of "Gethostbyname2 host None"
          "xlog ?w LOG_ERR (Failed_parse_hostname host)"]
      by (simp add: exits_on_fatal_def resolve_def sys_gethostbyname2_def)
  next
    case (Some h)
    have bad: ?thesis if "fatal_call (Gethostbyname2 host (Some h))"
      using that Cons Some fatal_pair [of "Gethostbyname2 host (Some h)"
          "xlog ?w LOG_ERR (No_ipv4_address host)"]
      by (auto simp: exits_on_fatal_def resolve_def sys_gethostbyname2_def
            split: option.splits list.splits)
    show ?thesis
    proof (cases "h_addr_list h")
      case None
      then show ?thesis by (intro bad) simp
    next
      case s: (Some as)
      show ?thesis
      proof (cases as)
        case Nil
        with s show ?thesis by (intro bad) simp
      next
        case (Cons a others)
        then show ?thesis
          using \<open>gethostbyname2_rs w = r # rs\<close> Some s
          by (cases others)
             (simp_all add: exits_on_fatal_def resolve_def sys_gethostbyname2_def)
      qed
    qed
  qed
qed

lemma exits_on_fatal_socket_connect: "exits_on_fatal (socket_connect host port w)"
  unfolding socket_connect_def
  by (intro exits_on_fatal_and_then exits_on_fatal_create_socket exits_on_fatal_set_timeouts
        exits_on_fatal_resolve exits_on_fatal_connect_retry)


text \<open>The warning about a host with more than one address, and the address a \<^verbatim>\<open>connect\<close> goes to.\<close>

fun multiple_warning :: "event \<Rightarrow> bool" where
  "multiple_warning (Vsyslog p (Multiple_ipv4 a)) = True"
| "multiple_warning (Stderr l (Multiple_ipv4 a)) = True"
| "multiple_warning _ = False"

fun connect_addr :: "event \<Rightarrow> in_addr option" where
  "connect_addr (Connect fd a p r) = Some a"
| "connect_addr _ = None"

lemma multiple_warning_xlog [simp]:
  "multiple_warning (xlog w p m) = (\<exists>a. m = Multiple_ipv4 a)"
  by (cases m) (simp_all add: xlog_def)

lemma connect_addr_xlog [simp]: "connect_addr (xlog w p m) = None"
  by (simp add: xlog_def)

lemma xlog_neq [simp]:
  "xlog w p m \<noteq> Gethostbyname2 host r" "xlog w p m \<noteq> Socket fd" "xlog w p m \<noteq> Sleep n"
  "xlog w p m \<noteq> Connect fd a q rv" "xlog w p m \<noteq> Setsockopt fd opt s u rv"
  "xlog w p m \<noteq> Read fd n bs rv" "xlog w p m \<noteq> Write fd bs rv" "xlog w p m \<noteq> Close fd"
  by (simp_all add: xlog_def)

lemma neq_xlog [simp]:
  "Gethostbyname2 host r \<noteq> xlog w p m" "Socket fd \<noteq> xlog w p m" "Sleep n \<noteq> xlog w p m"
  "Connect fd a q rv \<noteq> xlog w p m" "Setsockopt fd opt s u rv \<noteq> xlog w p m"
  "Read fd n bs rv \<noteq> xlog w p m" "Write fd bs rv \<noteq> xlog w p m" "Close fd \<noteq> xlog w p m"
  by (simp_all add: xlog_def)

lemma same_io_xlog: "same_io w w' \<Longrightarrow> xlog w' = xlog w"
  by (simp add: same_io_def xlog_def fun_eq_iff)



text \<open>
  The retries in every run. \<^verbatim>\<open>socket\<close>: the run begins with the failed calls, each with
  its warning and its sleep, and then either the script is over or the call that succeeds
  follows. \<^verbatim>\<open>connect\<close>: the refused calls, each with its warning and its sleep, come
  after all other events, and then either the run is over, cut by the end of the script
  when a call was refused, or the accepted call follows and the function returns.
\<close>

definition socket_retried :: "string \<Rightarrow> int \<Rightarrow> sys \<Rightarrow> 'a run \<Rightarrow> bool" where
  "socket_retried host port w r =
     (\<exists>sfails rest.
        (\<forall>x\<in>set sfails. x < 0) \<and>
        fst r = concat (map (socket_failure host port w) sfails) @ rest \<and>
        (rest = [] \<and> snd r = Stall \<or> (\<exists>fd rest'. 0 \<le> fd \<and> rest = Socket fd # rest')))"

definition connect_retried :: "string \<Rightarrow> int \<Rightarrow> sys \<Rightarrow> int run \<Rightarrow> bool" where
  "connect_retried host port w r =
     (\<exists>pre fd a cfails rest.
        fst r = pre @ concat (map (connect_failure host port fd a w) cfails) @ rest \<and>
        List.map_filter connect_addr pre = [] \<and> (\<forall>x\<in>set cfails. x < 0) \<and>
        (rest = [] \<and> (cfails \<noteq> [] \<longrightarrow> snd r = Stall) \<and> (\<forall>fd' w'. snd r \<noteq> Ret fd' w') \<or>
         (\<exists>ok w'. 0 \<le> ok \<and> rest = [Connect fd a (htons port) ok] \<and> snd r = Ret fd w')))"

lemma socket_retried_socket_connect:
  "socket_retried host port w (socket_connect host port w)"
proof (rule create_socket_cases [of w host port])
  assume a: "\<forall>r\<in>set (socket_rs w). r < 0"
    and c: "create_socket host port w =
      (concat (map (socket_failure host port w) (socket_rs w)), Stall)"
  have "socket_connect host port w =
      (concat (map (socket_failure host port w) (socket_rs w)) @ [], Stall)"
    by (simp add: socket_connect_def c)
  with a show ?thesis
    unfolding socket_retried_def by (intro exI [of _ "socket_rs w"] exI [of _ "[]"]) simp
next
  fix fs fd rest
  assume a: "\<forall>r\<in>set fs. r < 0" "0 \<le> fd"
    and c: "create_socket host port w =
      (concat (map (socket_failure host port w) fs) @ [Socket fd],
       Ret fd (w\<lparr>socket_rs := rest\<rparr>))"
  let ?k = "and_then (set_timeouts host port fd (w\<lparr>socket_rs := rest\<rparr>))
        (\<lambda>_ w2. and_then (resolve host w2) (connect_retry host port fd))"
  have "fst (socket_connect host port w) =
      concat (map (socket_failure host port w) fs) @ Socket fd # fst ?k"
    by (simp add: socket_connect_def c)
  with a show ?thesis
    unfolding socket_retried_def
    by (intro exI [of _ fs] exI [of _ "Socket fd # fst ?k"]) simp
qed

lemma connect_retried_and_then:
  assumes "List.map_filter connect_addr (fst r) = []"
    and "\<And>a w1. snd r = Ret a w1 \<Longrightarrow> connect_retried host port w (f a w1)"
  shows "connect_retried host port w (and_then r f)"
proof (cases r)
  case (Pair es out)
  show ?thesis
  proof (cases out)
    case (Ret a w1)
    have "connect_retried host port w (f a w1)"
      using assms(2) [of a w1] Pair Ret by simp
    then obtain pre fd b cfails rest where
      p: "fst (f a w1) = pre @ concat (map (connect_failure host port fd b w) cfails) @ rest"
        "List.map_filter connect_addr pre = []" "\<forall>x\<in>set cfails. x < 0"
        "rest = [] \<and> (cfails \<noteq> [] \<longrightarrow> snd (f a w1) = Stall) \<and>
           (\<forall>fd' w'. snd (f a w1) \<noteq> Ret fd' w') \<or>
         (\<exists>ok w'. 0 \<le> ok \<and> rest = [Connect fd b (htons port) ok] \<and> snd (f a w1) = Ret fd w')"
      unfolding connect_retried_def by blast
    have 1: "fst (and_then r f) =
        (es @ pre) @ concat (map (connect_failure host port fd b w) cfails) @ rest"
      using p(1) by (simp add: Pair Ret)
    have 2: "List.map_filter connect_addr (es @ pre) = []"
      using assms(1) p(2) by (simp add: Pair map_filter_append)
    have 3: "snd (and_then r f) = snd (f a w1)"
      by (simp add: Pair Ret)
    show ?thesis
      unfolding connect_retried_def 3
      using 1 2 p(3,4) by blast
  next
    case (Exit c)
    then have "fst (and_then r f) = es @ concat (map (connect_failure host port 0 0 w) []) @ []"
      "snd (and_then r f) = Exit c"
      by (simp_all add: Pair)
    then show ?thesis
      unfolding connect_retried_def using assms(1) Pair
      by (intro exI [of _ es] exI [of _ 0] exI [of _ "[]"]) simp
  next
    case Fault
    then have "fst (and_then r f) = es @ concat (map (connect_failure host port 0 0 w) []) @ []"
      "snd (and_then r f) = Fault"
      by (simp_all add: Pair)
    then show ?thesis
      unfolding connect_retried_def using assms(1) Pair
      by (intro exI [of _ es] exI [of _ 0] exI [of _ "[]"]) simp
  next
    case Stall
    then have "fst (and_then r f) = es @ concat (map (connect_failure host port 0 0 w) []) @ []"
      "snd (and_then r f) = Stall"
      by (simp_all add: Pair)
    then show ?thesis
      unfolding connect_retried_def using assms(1) Pair
      by (intro exI [of _ es] exI [of _ 0] exI [of _ "[]"]) simp
  qed
qed

lemma connect_failure_xlog:
  "xlog w' = xlog w \<Longrightarrow> connect_failure host port fd a w' = connect_failure host port fd a w"
  by (simp add: connect_failure_def fun_eq_iff)

lemma connect_retried_connect_retry:
  assumes "xlog w3 = xlog w"
  shows "connect_retried host port w (connect_retry host port fd a w3)"
proof (rule connect_retry_cases [of w3 host port fd a])
  assume a: "\<forall>r\<in>set (connect_rs w3). r < 0"
    and c: "connect_retry host port fd a w3 =
      (concat (map (connect_failure host port fd a w3) (connect_rs w3)), Stall)"
  have "fst (connect_retry host port fd a w3) =
      [] @ concat (map (connect_failure host port fd a w) (connect_rs w3)) @ []"
    "snd (connect_retry host port fd a w3) = Stall"
    by (simp_all add: c connect_failure_xlog [OF assms])
  with a show ?thesis
    unfolding connect_retried_def
    by (intro exI [of _ "[]"] exI [of _ fd] exI [of _ a] exI [of _ "connect_rs w3"]) simp
next
  fix fs ok rest
  assume a: "\<forall>r\<in>set fs. r < 0" "0 \<le> ok"
    and c: "connect_retry host port fd a w3 =
      (concat (map (connect_failure host port fd a w3) fs) @ [Connect fd a (htons port) ok],
       Ret fd (w3\<lparr>connect_rs := rest\<rparr>))"
  have "fst (connect_retry host port fd a w3) =
      [] @ concat (map (connect_failure host port fd a w) fs) @ [Connect fd a (htons port) ok]"
    "snd (connect_retry host port fd a w3) = Ret fd (w3\<lparr>connect_rs := rest\<rparr>)"
    by (simp_all add: c connect_failure_xlog [OF assms])
  with a show ?thesis
    unfolding connect_retried_def
    by (intro exI [of _ "[]"] exI [of _ fd] exI [of _ a] exI [of _ fs]
          exI [of _ "[Connect fd a (htons port) ok]"]) simp
qed

lemma no_connect_create_socket:
  "List.map_filter connect_addr (fst (create_socket host port w)) = []"
  using create_socket_events [of _ host port w]
  by (fastforce simp: List.map_filter_def filter_empty_conv)

lemma no_connect_set_timeouts:
  "List.map_filter connect_addr (fst (set_timeouts host port fd w)) = []"
  using set_timeouts_events [of _ host port fd w]
  by (fastforce simp: List.map_filter_def filter_empty_conv)

lemma no_connect_resolve:
  "List.map_filter connect_addr (fst (resolve host w)) = []"
  using resolve_events [of _ host w]
  by (fastforce simp: List.map_filter_def filter_empty_conv)

lemma snd_RetD: "snd r = Ret a w \<Longrightarrow> r = (fst r, Ret a w)"
  by (cases r) simp

lemma connect_retried_socket_connect:
  "connect_retried host port w (socket_connect host port w)"
  unfolding socket_connect_def
proof (rule connect_retried_and_then [OF no_connect_create_socket])
  fix fd w1
  assume "snd (create_socket host port w) = Ret fd w1"
  then have x1: "xlog w1 = xlog w"
    by (auto dest!: snd_RetD create_socket_same_io same_io_xlog)
  show "connect_retried host port w
          (and_then (set_timeouts host port fd w1)
             (\<lambda>_ w2. and_then (resolve host w2) (connect_retry host port fd)))"
  proof (rule connect_retried_and_then [OF no_connect_set_timeouts])
    fix u w2
    assume "snd (set_timeouts host port fd w1) = Ret u w2"
    then have x2: "xlog w2 = xlog w"
      using x1 by (auto dest!: snd_RetD set_timeouts_same_io same_io_xlog)
    show "connect_retried host port w (and_then (resolve host w2) (connect_retry host port fd))"
    proof (rule connect_retried_and_then [OF no_connect_resolve])
      fix a w3
      assume "snd (resolve host w2) = Ret a w3"
      then have "xlog w3 = xlog w"
        using x2 by (auto dest!: snd_RetD resolve_same_io same_io_xlog)
      then show "connect_retried host port w (connect_retry host port fd a w3)"
        by (rule connect_retried_connect_retry)
    qed
  qed
qed

section \<open>The relay loop\<close>

text \<open>
  The calls that the loop of \<^verbatim>\<open>main_loop\<close> makes on a connection it holds, the chunk
  that a successful \<^verbatim>\<open>read\<close> returned, and the chunk handed to a \<^verbatim>\<open>write\<close>.
\<close>

fun loop_call :: "event \<Rightarrow> bool" where
  "loop_call (Read fd n bs rv) = True"
| "loop_call (Write fd bs rv) = True"
| "loop_call (Close fd) = True"
| "loop_call _ = False"

fun read_chunk :: "event \<Rightarrow> char list option" where
  "read_chunk (Read fd n bs rv) = (if 0 < rv then Some bs else None)"
| "read_chunk _ = None"

fun written_chunk :: "event \<Rightarrow> char list option" where
  "written_chunk (Write fd bs rv) = Some bs"
| "written_chunk _ = None"

lemma loop_call_xlog [simp]: "\<not> loop_call (xlog w p m)"
  by (simp add: xlog_def)

lemma socket_connect_no_loop_call:
  "e \<in> set (fst (socket_connect host port w)) \<Longrightarrow> \<not> loop_call e"
  by (rule socket_connect_parts [of host port w]) fastforce

lemma filter_loop_call_socket_connect [simp]:
  "filter loop_call (fst (socket_connect host port w)) = []"
  by (auto simp: filter_empty_conv dest: socket_connect_no_loop_call)

lemma chunk_loop_call:
  "\<not> loop_call e \<Longrightarrow> read_chunk e = None" "\<not> loop_call e \<Longrightarrow> written_chunk e = None"
  by (cases e; simp)+

lemma map_filter_no_loop_call:
  "filter loop_call es = [] \<Longrightarrow> List.map_filter read_chunk es = []"
  "filter loop_call es = [] \<Longrightarrow> List.map_filter written_chunk es = []"
  by (auto simp: List.map_filter_def filter_empty_conv chunk_loop_call)

lemma snd_and_then_Ret:
  "snd (and_then r f) = Ret b w' \<longleftrightarrow>
     (\<exists>a w1. snd r = Ret a w1 \<and> snd (f a w1) = Ret b w')"
  by (cases r, cases "snd r") (auto simp: and_then_def)

lemma sys_read_got:
  assumes "sys_read count buf w = Some (rv, got, buf', w1)" and "0 < rv"
  shows "rv = int (length got)" "take (nat rv) buf' = got" "length got \<le> count" "got \<noteq> []"
  using assms
  by (auto simp: sys_read_def Let_def split: list.splits rd.splits if_splits)

lemma chunks_socket_connect [simp]:
  "List.map_filter read_chunk (fst (socket_connect host port w)) = []"
  "List.map_filter written_chunk (fst (socket_connect host port w)) = []"
  by (simp_all add: map_filter_no_loop_call)

lemma snd_and_then_Stall:
  "snd (and_then r (\<lambda>a w. ([], Ret (g a) w))) = Stall \<longleftrightarrow> snd r = Stall"
  by (cases r, cases "snd r") (auto simp: and_then_def)

lemma relay_step_relays:
  fixes src_host src_port dst_host dst_port dst src buf w
  defines "r \<equiv> relay_step src_host src_port dst_host dst_port dst src buf w"
  shows "\<forall>c\<in>set (List.map_filter read_chunk (fst r)). c \<noteq> [] \<and> length c \<le> BUFFER_SIZE"
    and "\<exists>pending. List.map_filter read_chunk (fst r) =
           List.map_filter written_chunk (fst r) @ pending \<and> length pending \<le> 1 \<and>
           (pending \<noteq> [] \<longrightarrow> r = ([Read src BUFFER_SIZE (hd pending) (int (length (hd pending)))], Stall))"
proof -
  have "(\<forall>c\<in>set (List.map_filter read_chunk (fst r)). c \<noteq> [] \<and> length c \<le> BUFFER_SIZE) \<and>
    (\<exists>pending. List.map_filter read_chunk (fst r) =
           List.map_filter written_chunk (fst r) @ pending \<and> length pending \<le> 1 \<and>
           (pending \<noteq> [] \<longrightarrow> r = ([Read src BUFFER_SIZE (hd pending) (int (length (hd pending)))], Stall)))"
  proof (cases "sys_read BUFFER_SIZE buf w")
    case None
    then show ?thesis by (simp add: r_def relay_step_def)
  next
    case (Some p)
    obtain rv got buf' w1 where p: "p = (rv, got, buf', w1)" by (cases p)
    note rd = Some [unfolded p]
    show ?thesis
    proof (cases "rv \<le> 0")
      case True
      then show ?thesis
        using rd by (simp add: r_def relay_step_def fst_and_then map_filter_append
              split: result.splits)
    next
      case False
      then have pos: "0 < rv" by simp
      note g = sys_read_got [OF rd pos]
      show ?thesis
      proof (cases "sys_write w1")
        case None
        then show ?thesis
          using rd pos g by (simp add: r_def relay_step_def)
      next
        case (Some q)
        obtain rv' w2 where q: "q = (rv', w2)" by (cases q)
        show ?thesis
          using rd pos g Some q
          by (simp add: r_def relay_step_def fst_and_then map_filter_append
                split: result.splits)
      qed
    qed
  qed
  then show "\<forall>c\<in>set (List.map_filter read_chunk (fst r)). c \<noteq> [] \<and> length c \<le> BUFFER_SIZE"
    and "\<exists>pending. List.map_filter read_chunk (fst r) =
           List.map_filter written_chunk (fst r) @ pending \<and> length pending \<le> 1 \<and>
           (pending \<noteq> [] \<longrightarrow> r = ([Read src BUFFER_SIZE (hd pending) (int (length (hd pending)))], Stall))"
    by blast+
qed



lemma main_iter_never_returns:
  "snd (main_iter src_host src_port dst_host dst_port dst src buf w) \<noteq> Ret x w'"
proof (induction src_host src_port dst_host dst_port dst src buf w rule: main_iter.induct)
  case (1 src_host src_port dst_host dst_port dst src buf w)
  obtain es out where step: "relay_step src_host src_port dst_host dst_port dst src buf w = (es, out)"
    by (cases "relay_step src_host src_port dst_host dst_port dst src buf w")
  show ?case
  proof (cases out)
    case (Ret y w1)
    obtain dst' src' buf' where y: "y = (dst', src', buf')" by (cases y)
    from "1.IH" [OF step [symmetric, unfolded Ret y] refl refl]
    show ?thesis
      by (simp add: main_iter.simps [of src_host src_port dst_host dst_port dst src buf w]
            step Ret y)
  qed (simp_all add: main_iter.simps [of src_host src_port dst_host dst_port dst src buf w] step)
qed


text \<open>
  What a run relays: every chunk read is at most one buffer long and not empty, and the
  chunks handed to \<^verbatim>\<open>write\<close> are the chunks read, in the same order, except that the
  chunk read last is still to be written when the script ends between the two calls.
\<close>

definition relays :: "'a run \<Rightarrow> bool" where
  "relays r =
     ((\<forall>c\<in>set (List.map_filter read_chunk (fst r)). c \<noteq> [] \<and> length c \<le> BUFFER_SIZE) \<and>
      (\<exists>pending. List.map_filter read_chunk (fst r) =
           List.map_filter written_chunk (fst r) @ pending \<and> length pending \<le> 1 \<and>
           (pending \<noteq> [] \<longrightarrow> snd r = Stall)))"

lemma relays_emit:
  assumes "\<forall>c\<in>set (List.map_filter read_chunk es). c \<noteq> [] \<and> length c \<le> BUFFER_SIZE"
    and "List.map_filter read_chunk es = List.map_filter written_chunk es"
    and "relays r"
  shows "relays (emit es r)"
proof -
  from assms(3) obtain pending where
    p: "List.map_filter read_chunk (fst r) = List.map_filter written_chunk (fst r) @ pending"
      "length pending \<le> 1" "pending \<noteq> [] \<longrightarrow> snd r = Stall"
    unfolding relays_def by blast
  have "List.map_filter read_chunk (es @ fst r) =
          List.map_filter written_chunk (es @ fst r) @ pending"
    using assms(2) p(1) by (simp add: map_filter_append)
  moreover have "\<forall>c\<in>set (List.map_filter read_chunk (es @ fst r)).
      c \<noteq> [] \<and> length c \<le> BUFFER_SIZE"
    using assms(1,3) by (auto simp: relays_def map_filter_append)
  ultimately show ?thesis
    using p(2,3) unfolding relays_def by (simp only: fst_emit snd_emit) blast
qed

lemma main_iter_relays:
  "relays (main_iter src_host src_port dst_host dst_port dst src buf w)"
proof (induction src_host src_port dst_host dst_port dst src buf w rule: main_iter.induct)
  case (1 src_host src_port dst_host dst_port dst src buf w)
  obtain es out where step: "relay_step src_host src_port dst_host dst_port dst src buf w = (es, out)"
    by (cases "relay_step src_host src_port dst_host dst_port dst src buf w")
  note rr = relay_step_relays [of src_host src_port dst_host dst_port dst src buf w, unfolded step]
  from rr(2) obtain pending where
    p: "List.map_filter read_chunk es = List.map_filter written_chunk es @ pending"
      "length pending \<le> 1" "pending \<noteq> [] \<longrightarrow> out = Stall"
    by auto
  have stop: "relays (es, out')" if "pending \<noteq> [] \<longrightarrow> out' = Stall" for out' :: "unit result"
    using rr(1) p that unfolding relays_def by (simp only: fst_conv snd_conv) blast
  show ?case
  proof (cases out)
    case (Ret y w1)
    obtain dst' src' buf' where y: "y = (dst', src', buf')" by (cases y)
    have "pending = []" using p(3) Ret by auto
    then have eq: "List.map_filter read_chunk es = List.map_filter written_chunk es"
      using p(1) by simp
    from "1.IH" [OF step [symmetric, unfolded Ret y] refl refl] rr(1) eq
    have "relays (emit es (main_iter src_host src_port dst_host dst_port dst' src' buf' w1))"
      by (intro relays_emit) simp_all
    then show ?thesis
      by (simp add: main_iter.simps [of src_host src_port dst_host dst_port dst src buf w]
            step Ret y)
  next
    case (Exit c)
    then show ?thesis
      using stop [of "Exit c"] p(3)
      by (simp add: main_iter.simps [of src_host src_port dst_host dst_port dst src buf w] step)
  next
    case Fault
    then show ?thesis
      using stop [of Fault] p(3)
      by (simp add: main_iter.simps [of src_host src_port dst_host dst_port dst src buf w] step)
  next
    case Stall
    then show ?thesis
      using stop [of Stall]
      by (simp add: main_iter.simps [of src_host src_port dst_host dst_port dst src buf w] step)
  qed
qed

lemma relays_and_then_socket_connect:
  assumes "\<And>fd w1. relays (f fd w1)"
  shows "relays (and_then (socket_connect host port w) f)"
proof (cases "socket_connect host port w")
  case (Pair es out)
  have es: "es = fst (socket_connect host port w)" using Pair by simp
  have n: "List.map_filter read_chunk es = []" "List.map_filter written_chunk es = []"
    unfolding es by simp_all
  show ?thesis
  proof (cases out)
    case (Ret fd w1)
    have "relays (emit es (f fd w1))"
      using n assms by (intro relays_emit) simp_all
    then show ?thesis by (simp add: Pair Ret)
  qed (simp_all add: Pair relays_def n)
qed

lemma main_loop_relays: "relays (main_loop src_host src_port dst_host dst_port w)"
  unfolding main_loop_def
  by (intro relays_and_then_socket_connect main_iter_relays)

lemma main_iter_unfold:
  "main_iter src_host src_port dst_host dst_port dst src buf w =
     (case snd (relay_step src_host src_port dst_host dst_port dst src buf w) of
        Ret x w' \<Rightarrow>
          emit (fst (relay_step src_host src_port dst_host dst_port dst src buf w))
            (main_iter src_host src_port dst_host dst_port (fst x) (fst (snd x)) (snd (snd x)) w')
      | Exit c \<Rightarrow> (fst (relay_step src_host src_port dst_host dst_port dst src buf w), Exit c)
      | Fault \<Rightarrow> (fst (relay_step src_host src_port dst_host dst_port dst src buf w), Fault)
      | Stall \<Rightarrow> (fst (relay_step src_host src_port dst_host dst_port dst src buf w), Stall))"
  by (subst main_iter.simps) (auto split: prod.splits result.splits)

text \<open>
  A run of the loop is its first pass followed by the run of the loop from the state the
  pass leaves, and in that rest the chunks written are again the chunks read there.
\<close>

lemma main_iter_after_step:
  "\<exists>rest pending.
     fst (main_iter src_host src_port dst_host dst_port dst src buf w) =
       fst (relay_step src_host src_port dst_host dst_port dst src buf w) @ rest \<and>
     List.map_filter read_chunk rest = List.map_filter written_chunk rest @ pending"
proof (cases "snd (relay_step src_host src_port dst_host dst_port dst src buf w)")
  case (Ret x w')
  let ?next = "main_iter src_host src_port dst_host dst_port (fst x) (fst (snd x)) (snd (snd x)) w'"
  have "fst (main_iter src_host src_port dst_host dst_port dst src buf w) =
          fst (relay_step src_host src_port dst_host dst_port dst src buf w) @ fst ?next"
    by (subst main_iter_unfold) (simp add: Ret)
  moreover have "\<exists>pending. List.map_filter read_chunk (fst ?next) =
      List.map_filter written_chunk (fst ?next) @ pending"
    using main_iter_relays [of src_host src_port dst_host dst_port "fst x" "fst (snd x)"
        "snd (snd x)" w']
    unfolding relays_def by blast
  ultimately show ?thesis by blast
next
  case (Exit c)
  have "fst (main_iter src_host src_port dst_host dst_port dst src buf w) =
          fst (relay_step src_host src_port dst_host dst_port dst src buf w) @ []"
    by (subst main_iter_unfold) (simp add: Exit)
  then show ?thesis by (intro exI [of _ "[]"]) simp
next
  case Fault
  have "fst (main_iter src_host src_port dst_host dst_port dst src buf w) =
          fst (relay_step src_host src_port dst_host dst_port dst src buf w) @ []"
    by (subst main_iter_unfold) (simp add: Fault)
  then show ?thesis by (intro exI [of _ "[]"]) simp
next
  case Stall
  have "fst (main_iter src_host src_port dst_host dst_port dst src buf w) =
          fst (relay_step src_host src_port dst_host dst_port dst src buf w) @ []"
    by (subst main_iter_unfold) (simp add: Stall)
  then show ?thesis by (intro exI [of _ "[]"]) simp
qed

lemmas loop_simps =
  main_loop_def main_iter_unfold relay_step_def sys_read_def sys_write_def BUFFER_SIZE_def Let_def

text \<open>
  Where the loop of \<^verbatim>\<open>main_loop\<close> stands, with the descriptors it holds: connecting the
  destination and then the source on entry, about to read, about to write the chunk just
  read, about to close and then connecting again the side that failed.
\<close>

datatype phase =
    Dst_first
  | Src_first int                \<comment> \<open>dst\<close>
  | Reading int int              \<comment> \<open>dst, src\<close>
  | Writing int int "char list"  \<comment> \<open>dst, src, the chunk read\<close>
  | Src_closing int int          \<comment> \<open>dst, src\<close>
  | Src_connecting int           \<comment> \<open>dst\<close>
  | Dst_closing int int          \<comment> \<open>dst, src\<close>
  | Dst_connecting int           \<comment> \<open>src\<close>

text \<open>
  The events that the connector for \<open>host\<close> and \<open>port\<close> makes before its
  \<^verbatim>\<open>connect\<close> is accepted, and the descriptor of an accepted \<^verbatim>\<open>connect\<close> to
  \<open>port\<close>.
\<close>

fun retrying :: "string \<Rightarrow> int \<Rightarrow> event \<Rightarrow> bool" where
  "retrying host port (Socket r) = True"
| "retrying host port (Setsockopt fd opt s u r) = True"
| "retrying host port (Gethostbyname2 h r) = (h = host)"
| "retrying host port (Connect fd a p r) = (r < 0 \<and> p = htons port)"
| "retrying host port (Sleep n) = True"
| "retrying host port (Vsyslog p m) = True"
| "retrying host port (Stderr l m) = True"
| "retrying host port _ = False"

fun accepted_connect :: "int \<Rightarrow> event \<Rightarrow> int option" where
  "accepted_connect port (Connect fd a p r) = (if 0 \<le> r \<and> p = htons port then Some fd else None)"
| "accepted_connect port _ = None"

text \<open>
  The traces of the relay: read from the source descriptor, at most \<open>BUFFER_SIZE\<close> bytes;
  after a chunk, one \<^verbatim>\<open>write\<close> of that chunk on the destination descriptor; after a
  \<^verbatim>\<open>read\<close> or a \<^verbatim>\<open>write\<close> that returns zero or less, the close of that descriptor and
  the connector for that side, whose accepted \<^verbatim>\<open>connect\<close> gives the descriptor used
  from then on. A run may be cut at any point.
\<close>

fun relay_trace :: "string \<Rightarrow> int \<Rightarrow> string \<Rightarrow> int \<Rightarrow> phase \<Rightarrow> event list \<Rightarrow> bool" where
  "relay_trace sh sp dh dp ph [] = True"
| "relay_trace sh sp dh dp Dst_first (e # es) =
     (case accepted_connect dp e of
        Some fd \<Rightarrow> relay_trace sh sp dh dp (Src_first fd) es
      | None \<Rightarrow> retrying dh dp e \<and> relay_trace sh sp dh dp Dst_first es)"
| "relay_trace sh sp dh dp (Src_first dst) (e # es) =
     (case accepted_connect sp e of
        Some fd \<Rightarrow> relay_trace sh sp dh dp (Reading dst fd) es
      | None \<Rightarrow> retrying sh sp e \<and> relay_trace sh sp dh dp (Src_first dst) es)"
| "relay_trace sh sp dh dp (Reading dst src) (e # es) =
     (case e of
        Read fd n bs rv \<Rightarrow>
          fd = src \<and> n = BUFFER_SIZE \<and>
          (if 0 < rv
           then rv = int (length bs) \<and> length bs \<le> BUFFER_SIZE \<and>
                relay_trace sh sp dh dp (Writing dst src bs) es
           else bs = [] \<and> relay_trace sh sp dh dp (Src_closing dst src) es)
      | _ \<Rightarrow> False)"
| "relay_trace sh sp dh dp (Writing dst src chunk) (e # es) =
     (case e of
        Write fd bs rv \<Rightarrow>
          fd = dst \<and> bs = chunk \<and>
          (if 0 < rv then relay_trace sh sp dh dp (Reading dst src) es
           else relay_trace sh sp dh dp (Dst_closing dst src) es)
      | _ \<Rightarrow> False)"
| "relay_trace sh sp dh dp (Src_closing dst src) (e # es) =
     (e = Close src \<and> relay_trace sh sp dh dp (Src_connecting dst) es)"
| "relay_trace sh sp dh dp (Src_connecting dst) (e # es) =
     (case accepted_connect sp e of
        Some fd \<Rightarrow> relay_trace sh sp dh dp (Reading dst fd) es
      | None \<Rightarrow> retrying sh sp e \<and> relay_trace sh sp dh dp (Src_connecting dst) es)"
| "relay_trace sh sp dh dp (Dst_closing dst src) (e # es) =
     (e = Close dst \<and> relay_trace sh sp dh dp (Dst_connecting src) es)"
| "relay_trace sh sp dh dp (Dst_connecting src) (e # es) =
     (case accepted_connect dp e of
        Some fd \<Rightarrow> relay_trace sh sp dh dp (Reading fd src) es
      | None \<Rightarrow> retrying dh dp e \<and> relay_trace sh sp dh dp (Dst_connecting src) es)"

lemma retrying_not_accepted: "retrying host port e \<Longrightarrow> accepted_connect port' e = None"
  by (cases e) auto

lemma relay_trace_retrying:
  assumes "\<forall>e\<in>set pre. retrying dh dp e"
  shows "relay_trace sh sp dh dp Dst_first (pre @ rest) = relay_trace sh sp dh dp Dst_first rest"
    and "relay_trace sh sp dh dp (Dst_connecting src) (pre @ rest) =
         relay_trace sh sp dh dp (Dst_connecting src) rest"
  using assms
  by (induction pre) (simp_all add: retrying_not_accepted [where host = dh and port = dp])

lemma relay_trace_retrying_src:
  assumes "\<forall>e\<in>set pre. retrying sh sp e"
  shows "relay_trace sh sp dh dp (Src_first dst) (pre @ rest) =
         relay_trace sh sp dh dp (Src_first dst) rest"
    and "relay_trace sh sp dh dp (Src_connecting dst) (pre @ rest) =
         relay_trace sh sp dh dp (Src_connecting dst) rest"
  using assms
  by (induction pre) (simp_all add: retrying_not_accepted [where host = sh and port = sp])


lemma retrying_xlog [simp]: "retrying host port (xlog w p m)"
  by (simp add: xlog_def)

text \<open>
  A run of the connector: retrying events only, and then, when it returns, the accepted
  \<^verbatim>\<open>connect\<close> on the descriptor returned.
\<close>

definition connects :: "string \<Rightarrow> int \<Rightarrow> int run \<Rightarrow> bool" where
  "connects host port r =
     (case snd r of
        Ret fd w' \<Rightarrow>
          \<exists>pre a ok. fst r = pre @ [Connect fd a (htons port) ok] \<and> 0 \<le> ok \<and>
            (\<forall>e\<in>set pre. retrying host port e)
      | _ \<Rightarrow> \<forall>e\<in>set (fst r). retrying host port e)"

lemma connects_and_then:
  assumes "\<forall>e\<in>set (fst r). retrying host port e"
    and "\<And>a w. snd r = Ret a w \<Longrightarrow> connects host port (f a w)"
  shows "connects host port (and_then r f)"
proof (cases r)
  case (Pair es out)
  show ?thesis
  proof (cases out)
    case (Ret a w)
    have c: "connects host port (f a w)"
      using assms(2) [of a w] Pair Ret by simp
    have r: "fst (and_then r f) = es @ fst (f a w)" "snd (and_then r f) = snd (f a w)"
      by (simp_all add: Pair Ret)
    show ?thesis
    proof (cases "snd (f a w)")
      case (Ret fd w')
      with c obtain pre b ok where
        p: "fst (f a w) = pre @ [Connect fd b (htons port) ok]" "0 \<le> ok"
          "\<forall>e\<in>set pre. retrying host port e"
        unfolding connects_def by auto
      have "fst (and_then r f) = (es @ pre) @ [Connect fd b (htons port) ok]"
        using r(1) p(1) by simp
      moreover have "\<forall>e\<in>set (es @ pre). retrying host port e"
        using assms(1) p(3) Pair by auto
      ultimately show ?thesis
        unfolding connects_def r(2) Ret using p(2) by (simp only: result.case) blast
    next
      case e2: (Exit c')
      show ?thesis
        unfolding connects_def r e2 using c assms(1) Pair by (auto simp: connects_def e2)
    next
      case e2: Fault
      show ?thesis
        unfolding connects_def r e2 using c assms(1) Pair by (auto simp: connects_def e2)
    next
      case e2: Stall
      show ?thesis
        unfolding connects_def r e2 using c assms(1) Pair by (auto simp: connects_def e2)
    qed
  next
    case (Exit c)
    with assms(1) Pair show ?thesis by (simp add: connects_def)
  next
    case Fault
    with assms(1) Pair show ?thesis by (simp add: connects_def)
  next
    case Stall
    with assms(1) Pair show ?thesis by (simp add: connects_def)
  qed
qed

lemma retrying_create_socket:
  "\<forall>e\<in>set (fst (create_socket host port w)). retrying host port e"
  using create_socket_events [of _ host port w] by fastforce

lemma retrying_set_timeouts:
  "\<forall>e\<in>set (fst (set_timeouts host port fd w)). retrying host port e"
  using set_timeouts_events [of _ host port fd w] by fastforce

lemma retrying_resolve:
  "\<forall>e\<in>set (fst (resolve host w)). retrying host port e"
  using resolve_events [of _ host w] by fastforce

lemma connects_connect_retry: "connects host port (connect_retry host port fd a w)"
  by (rule connect_retry_cases [of w host port fd a])
     (auto simp: connects_def connect_failure_def)

lemma connects_socket_connect: "connects host port (socket_connect host port w)"
  unfolding socket_connect_def
  by (intro connects_and_then retrying_create_socket retrying_set_timeouts retrying_resolve
        connects_connect_retry)


lemma connector_cases:
  assumes "socket_connect host port w = (es, out)"
  obtains (returns) fd w' pre a ok where "out = Ret fd w'"
      "es = pre @ [Connect fd a (htons port) ok]" "0 \<le> ok" "\<forall>e\<in>set pre. retrying host port e"
  | (stops) "\<forall>fd w'. out \<noteq> Ret fd w'" "\<forall>e\<in>set es. retrying host port e"
  using connects_socket_connect [of host port w] assms
  by (cases out) (auto simp: connects_def)

lemma relay_trace_dst_connector:
  assumes "socket_connect dh dp w = (es, out)"
  shows "relay_trace sh sp dh dp Dst_first (es @ rest) =
           (case out of Ret fd w' \<Rightarrow> relay_trace sh sp dh dp (Src_first fd) rest
            | _ \<Rightarrow> relay_trace sh sp dh dp Dst_first rest)"
    and "relay_trace sh sp dh dp (Dst_connecting src) (es @ rest) =
           (case out of Ret fd w' \<Rightarrow> relay_trace sh sp dh dp (Reading fd src) rest
            | _ \<Rightarrow> relay_trace sh sp dh dp (Dst_connecting src) rest)"
proof -
  show "relay_trace sh sp dh dp Dst_first (es @ rest) =
           (case out of Ret fd w' \<Rightarrow> relay_trace sh sp dh dp (Src_first fd) rest
            | _ \<Rightarrow> relay_trace sh sp dh dp Dst_first rest)"
  proof (rule connector_cases [OF assms])
    fix fd w' pre a ok
    assume "out = Ret fd w'" "es = pre @ [Connect fd a (htons dp) ok]" "0 \<le> ok"
      "\<forall>e\<in>set pre. retrying dh dp e"
    then show ?thesis
      by (simp add: relay_trace_retrying)
  next
    assume "\<forall>fd w'. out \<noteq> Ret fd w'" "\<forall>e\<in>set es. retrying dh dp e"
    then show ?thesis
      by (cases out) (simp_all add: relay_trace_retrying)
  qed
  show "relay_trace sh sp dh dp (Dst_connecting src) (es @ rest) =
           (case out of Ret fd w' \<Rightarrow> relay_trace sh sp dh dp (Reading fd src) rest
            | _ \<Rightarrow> relay_trace sh sp dh dp (Dst_connecting src) rest)"
  proof (rule connector_cases [OF assms])
    fix fd w' pre a ok
    assume "out = Ret fd w'" "es = pre @ [Connect fd a (htons dp) ok]" "0 \<le> ok"
      "\<forall>e\<in>set pre. retrying dh dp e"
    then show ?thesis
      by (simp add: relay_trace_retrying)
  next
    assume "\<forall>fd w'. out \<noteq> Ret fd w'" "\<forall>e\<in>set es. retrying dh dp e"
    then show ?thesis
      by (cases out) (simp_all add: relay_trace_retrying)
  qed
qed

lemma relay_trace_src_connector:
  assumes "socket_connect sh sp w = (es, out)"
  shows "relay_trace sh sp dh dp (Src_first dst) (es @ rest) =
           (case out of Ret fd w' \<Rightarrow> relay_trace sh sp dh dp (Reading dst fd) rest
            | _ \<Rightarrow> relay_trace sh sp dh dp (Src_first dst) rest)"
    and "relay_trace sh sp dh dp (Src_connecting dst) (es @ rest) =
           (case out of Ret fd w' \<Rightarrow> relay_trace sh sp dh dp (Reading dst fd) rest
            | _ \<Rightarrow> relay_trace sh sp dh dp (Src_connecting dst) rest)"
proof -
  show "relay_trace sh sp dh dp (Src_first dst) (es @ rest) =
           (case out of Ret fd w' \<Rightarrow> relay_trace sh sp dh dp (Reading dst fd) rest
            | _ \<Rightarrow> relay_trace sh sp dh dp (Src_first dst) rest)"
  proof (rule connector_cases [OF assms])
    fix fd w' pre a ok
    assume "out = Ret fd w'" "es = pre @ [Connect fd a (htons sp) ok]" "0 \<le> ok"
      "\<forall>e\<in>set pre. retrying sh sp e"
    then show ?thesis
      by (simp add: relay_trace_retrying_src)
  next
    assume "\<forall>fd w'. out \<noteq> Ret fd w'" "\<forall>e\<in>set es. retrying sh sp e"
    then show ?thesis
      by (cases out) (simp_all add: relay_trace_retrying_src)
  qed
  show "relay_trace sh sp dh dp (Src_connecting dst) (es @ rest) =
           (case out of Ret fd w' \<Rightarrow> relay_trace sh sp dh dp (Reading dst fd) rest
            | _ \<Rightarrow> relay_trace sh sp dh dp (Src_connecting dst) rest)"
  proof (rule connector_cases [OF assms])
    fix fd w' pre a ok
    assume "out = Ret fd w'" "es = pre @ [Connect fd a (htons sp) ok]" "0 \<le> ok"
      "\<forall>e\<in>set pre. retrying sh sp e"
    then show ?thesis
      by (simp add: relay_trace_retrying_src)
  next
    assume "\<forall>fd w'. out \<noteq> Ret fd w'" "\<forall>e\<in>set es. retrying sh sp e"
    then show ?thesis
      by (cases out) (simp_all add: relay_trace_retrying_src)
  qed
qed


lemma sys_read_failed:
  "sys_read count buf w = Some (rv, got, buf', w1) \<Longrightarrow> rv \<le> 0 \<Longrightarrow> got = []"
  by (auto simp: sys_read_def Let_def split: list.splits rd.splits if_splits)

lemma relay_step_trace:
  fixes src_host src_port dst_host dst_port dst src buf w
  defines "step \<equiv> relay_step src_host src_port dst_host dst_port dst src buf w"
  shows "(\<forall>x w'. snd step = Ret x w' \<longrightarrow>
            relay_trace src_host src_port dst_host dst_port (Reading dst src) (fst step @ rest) =
            relay_trace src_host src_port dst_host dst_port (Reading (fst x) (fst (snd x))) rest) \<and>
         ((\<forall>x w'. snd step \<noteq> Ret x w') \<longrightarrow>
            relay_trace src_host src_port dst_host dst_port (Reading dst src) (fst step))"
proof (cases "sys_read BUFFER_SIZE buf w")
  case None
  then show ?thesis by (simp add: step_def relay_step_def)
next
  case (Some p)
  obtain rv got buf' w1 where p: "p = (rv, got, buf', w1)" by (cases p)
  note rd = Some [unfolded p]
  show ?thesis
  proof (cases "rv \<le> 0")
    case True
    obtain esc outc where c: "socket_connect src_host src_port w1 = (esc, outc)"
      by (cases "socket_connect src_host src_port w1")
    have g: "got = []" using rd True by (rule sys_read_failed)
    have st: "fst step = [Read src BUFFER_SIZE [] rv, Close src] @ esc"
      "snd step = (case outc of Ret src' w2 \<Rightarrow> Ret (dst, src', buf') w2 | Exit n \<Rightarrow> Exit n
                   | Fault \<Rightarrow> Fault | Stall \<Rightarrow> Stall)"
      using rd True g c by (simp_all add: step_def relay_step_def and_then_def split: result.splits)
    note t = relay_trace_src_connector(2) [OF c, where dh = dst_host and dp = dst_port and dst = dst]
    show ?thesis
      unfolding st using True t [where rest = rest] t [where rest = "[]"]
      by (cases outc) simp_all
  next
    case False
    then have pos: "0 < rv" by simp
    note g = sys_read_got [OF rd pos]
    show ?thesis
    proof (cases "sys_write w1")
      case None
      then show ?thesis
        using rd pos g by (simp add: step_def relay_step_def)
    next
      case (Some q)
      obtain rv' w2 where q: "q = (rv', w2)" by (cases q)
      note wr = Some [unfolded q]
      show ?thesis
      proof (cases "rv' \<le> 0")
        case True
        obtain esc outc where c: "socket_connect dst_host dst_port w2 = (esc, outc)"
          by (cases "socket_connect dst_host dst_port w2")
        have st: "fst step = [Read src BUFFER_SIZE got rv, Write dst got rv', Close dst] @ esc"
          "snd step = (case outc of Ret dst' w3 \<Rightarrow> Ret (dst', src, buf') w3 | Exit n \<Rightarrow> Exit n
                       | Fault \<Rightarrow> Fault | Stall \<Rightarrow> Stall)"
          using rd pos g wr True c
          by (simp_all add: step_def relay_step_def and_then_def split: result.splits)
        note t = relay_trace_dst_connector(2) [OF c, where sh = src_host and sp = src_port and src = src]
        show ?thesis
          unfolding st using True pos g t [where rest = rest] t [where rest = "[]"]
          by (cases outc) simp_all
      next
        case f: False
        have st: "fst step = [Read src BUFFER_SIZE got rv, Write dst got rv']"
          "snd step = Ret (dst, src, buf') w2"
          using rd pos g wr f by (simp_all add: step_def relay_step_def)
        show ?thesis
          unfolding st using f pos g by simp
      qed
    qed
  qed
qed


lemma main_iter_trace:
  "relay_trace src_host src_port dst_host dst_port (Reading dst src)
     (fst (main_iter src_host src_port dst_host dst_port dst src buf w))"
proof (induction src_host src_port dst_host dst_port dst src buf w rule: main_iter.induct)
  case (1 src_host src_port dst_host dst_port dst src buf w)
  let ?step = "relay_step src_host src_port dst_host dst_port dst src buf w"
  note t = relay_step_trace [of src_host src_port dst_host dst_port dst src buf w]
  show ?case
  proof (cases "snd ?step")
    case (Ret x w')
    obtain dst' src' buf' where x: "x = (dst', src', buf')" by (cases x)
    have step: "(fst ?step, Ret (dst', src', buf') w') = ?step"
      using Ret x by (metis prod.collapse)
    from "1.IH" [OF step refl refl refl]
    have "relay_trace src_host src_port dst_host dst_port (Reading dst' src')
            (fst (main_iter src_host src_port dst_host dst_port dst' src' buf' w'))" .
    then have "relay_trace src_host src_port dst_host dst_port (Reading dst src)
            (fst ?step @ fst (main_iter src_host src_port dst_host dst_port dst' src' buf' w'))"
      using t [of "fst (main_iter src_host src_port dst_host dst_port dst' src' buf' w')"] Ret x
      by simp
    then show ?thesis
      by (subst main_iter_unfold) (simp add: Ret x)
  next
    case (Exit c)
    then show ?thesis using t [of "[]"] by (subst main_iter_unfold) simp
  next
    case Fault
    then show ?thesis using t [of "[]"] by (subst main_iter_unfold) simp
  next
    case Stall
    then show ?thesis using t [of "[]"] by (subst main_iter_unfold) simp
  qed
qed

lemma main_loop_trace:
  "relay_trace src_host src_port dst_host dst_port Dst_first
     (fst (main_loop src_host src_port dst_host dst_port w))"
proof -
  obtain es1 out1 where c1: "socket_connect dst_host dst_port w = (es1, out1)"
    by (cases "socket_connect dst_host dst_port w")
  note t1 = relay_trace_dst_connector(1) [OF c1, where sh = src_host and sp = src_port]
  show ?thesis
  proof (cases out1)
    case (Ret dst w1)
    obtain es2 out2 where c2: "socket_connect src_host src_port w1 = (es2, out2)"
      by (cases "socket_connect src_host src_port w1")
    note t2 = relay_trace_src_connector(1) [OF c2, where dh = dst_host and dp = dst_port and dst = dst]
    show ?thesis
    proof (cases out2)
      case r2: (Ret src w2)
      have "fst (main_loop src_host src_port dst_host dst_port w) =
              es1 @ es2 @ fst (main_iter src_host src_port dst_host dst_port dst src (stack_bytes w2) w2)"
        using c1 c2 Ret r2 by (simp add: main_loop_def and_then_def split: prod.splits)
      then show ?thesis
        using t1 [where rest = "es2 @ fst (main_iter src_host src_port dst_host dst_port dst src (stack_bytes w2) w2)"]
          t2 [where rest = "fst (main_iter src_host src_port dst_host dst_port dst src (stack_bytes w2) w2)"]
          main_iter_trace [of src_host src_port dst_host dst_port dst src "stack_bytes w2" w2] Ret r2
        by simp
    next
      case (Exit c)
      have "fst (main_loop src_host src_port dst_host dst_port w) = es1 @ es2"
        using c1 c2 Ret Exit by (simp add: main_loop_def and_then_def)
      then show ?thesis using t1 [where rest = es2] t2 [where rest = "[]"] Ret Exit by simp
    next
      case Fault
      have "fst (main_loop src_host src_port dst_host dst_port w) = es1 @ es2"
        using c1 c2 Ret Fault by (simp add: main_loop_def and_then_def)
      then show ?thesis using t1 [where rest = es2] t2 [where rest = "[]"] Ret Fault by simp
    next
      case Stall
      have "fst (main_loop src_host src_port dst_host dst_port w) = es1 @ es2"
        using c1 c2 Ret Stall by (simp add: main_loop_def and_then_def)
      then show ?thesis using t1 [where rest = es2] t2 [where rest = "[]"] Ret Stall by simp
    qed
  next
    case (Exit c)
    have "fst (main_loop src_host src_port dst_host dst_port w) = es1"
      using c1 Exit by (simp add: main_loop_def and_then_def)
    then show ?thesis using t1 [where rest = "[]"] Exit by simp
  next
    case Fault
    have "fst (main_loop src_host src_port dst_host dst_port w) = es1"
      using c1 Fault by (simp add: main_loop_def and_then_def)
    then show ?thesis using t1 [where rest = "[]"] Fault by simp
  next
    case Stall
    have "fst (main_loop src_host src_port dst_host dst_port w) = es1"
      using c1 Stall by (simp add: main_loop_def and_then_def)
    then show ?thesis using t1 [where rest = "[]"] Stall by simp
  qed
qed

text \<open>
  What the destination took of a chunk: \<^verbatim>\<open>write\<close> returns the number of bytes it
  accepted, the first bytes of the chunk it was handed, and none when it returns zero or
  less. A \<^verbatim>\<open>write\<close> is whole when it returns the length of the chunk.
\<close>

fun accepted :: "event \<Rightarrow> char list option" where
  "accepted (Write fd bs rv) = Some (take (nat rv) bs)"
| "accepted _ = None"

fun whole_write :: "event \<Rightarrow> bool" where
  "whole_write (Write fd bs rv) = (rv = int (length bs))"
| "whole_write _ = True"

lemma accepted_whole:
  "\<forall>e\<in>set es. whole_write e \<Longrightarrow>
     List.map_filter accepted es = List.map_filter written_chunk es"
proof (induction es)
  case Nil
  show ?case by (simp add: List.map_filter_simps)
next
  case (Cons e es)
  then show ?case by (cases e) (simp_all add: List.map_filter_simps)
qed

lemma accepted_pieces:
  "list_all2 (\<lambda>p c. p = take (length p) c)
     (List.map_filter accepted es) (List.map_filter written_chunk es)"
proof (induction es)
  case Nil
  show ?case by (simp add: List.map_filter_simps)
next
  case (Cons e es)
  then show ?case by (cases e) (simp_all add: List.map_filter_simps min_def)
qed

section \<open>The arguments\<close>

text \<open>The port a \<^verbatim>\<open>connect\<close> goes to.\<close>

fun connect_port :: "event \<Rightarrow> nat option" where
  "connect_port (Connect fd a p r) = Some p"
| "connect_port _ = None"

text \<open>
  What the claim about the port values calls a valid decimal number: one or more decimal
  digits and nothing else.
\<close>

definition valid_decimal :: "string \<Rightarrow> bool" where
  "valid_decimal s = (s \<noteq> [] \<and> list_all isdigit s)"

lemma strtoul_no_digits: "digits_of val = [] \<Longrightarrow> strtoul val = 0"
  by (simp add: strtoul_def Let_def ULONG_MAX_def)

lemma to_int_0 [simp]: "to_int 0 = 0"
  by (simp add: to_int_def)

lemma arg_loop_s_attached:
  "val \<noteq> [] \<Longrightarrow>
   arg_loop ((CHR ''-'' # CHR ''s'' # val) # rest) src_host dst_host src_port dst_port w =
     arg_loop rest src_host dst_host (to_int (strtoul val)) dst_port w"
  by (simp add: is_option_def)

lemma arg_loop_s_detached:
  "arg_loop (''-s'' # val # rest) src_host dst_host src_port dst_port w =
     arg_loop rest src_host dst_host (to_int (strtoul val)) dst_port w"
  by (simp add: is_option_def)

lemma arg_loop_d_attached:
  "val \<noteq> [] \<Longrightarrow>
   arg_loop ((CHR ''-'' # CHR ''d'' # val) # rest) src_host dst_host src_port dst_port w =
     arg_loop rest src_host dst_host src_port (to_int (strtoul val)) w"
  by (simp add: is_option_def)

lemma arg_loop_d_detached:
  "arg_loop (''-d'' # val # rest) src_host dst_host src_port dst_port w =
     arg_loop rest src_host dst_host src_port (to_int (strtoul val)) w"
  by (simp add: is_option_def)

lemma arg_loop_hosts:
  "\<not> is_option src \<Longrightarrow> \<not> is_option dst \<Longrightarrow>
   arg_loop [src, dst] None None src_port dst_port w =
     and_then (main_loop src src_port dst dst_port w) (\<lambda>_ w'. ([], Ret 0 w'))"
  by (simp add: after_args_def)



lemma digit_value: "isdigit c \<Longrightarrow> 0 \<le> (of_char c :: int) - 48"
  by (auto simp: isdigit_def)

lemma digit_not_space: "isdigit c \<Longrightarrow> \<not> isspace c \<and> c \<noteq> CHR ''-'' \<and> c \<noteq> CHR ''+''"
  by (auto simp: isdigit_def isspace_def)

lemma decimal_nonneg: "0 \<le> acc \<Longrightarrow> \<forall>c\<in>set ds. isdigit c \<Longrightarrow> 0 \<le> decimal acc ds"
proof (induction ds arbitrary: acc)
  case Nil
  then show ?case by simp
next
  case (Cons c ds)
  have "0 \<le> acc * 10 + (of_char c - 48)"
    using Cons.prems digit_value [of c] by simp
  then show ?case using Cons by simp
qed

lemma strtoul_leading_digits:
  assumes "takeWhile isdigit val \<noteq> []" and "decimal 0 (takeWhile isdigit val) < 2 ^ 31"
  shows "to_int (strtoul val) = decimal 0 (takeWhile isdigit val)"
proof -
  from assms(1) obtain c cs where v: "val = c # cs" and c: "isdigit c"
    by (cases val) (auto split: if_splits)
  note n = digit_not_space [OF c]
  have d: "digits_of val = takeWhile isdigit val"
    using n by (simp add: digits_of_def v)
  have "\<forall>c\<in>set (takeWhile isdigit val). isdigit c"
    by (auto dest: set_takeWhileD)
  then have p: "0 \<le> decimal 0 (takeWhile isdigit val)"
    by (intro decimal_nonneg) simp_all
  have s: "strtoul val = decimal 0 (takeWhile isdigit val)"
    using n assms(2) by (simp add: strtoul_def d Let_def ULONG_MAX_def) (simp add: v)
  show ?thesis
    using p assms(2) by (simp add: s to_int_def)
qed

text \<open>
  A value that begins with a digit: \<^verbatim>\<open>strtoul\<close> returns the number its leading digits
  denote, and \<^verbatim>\<open>ULONG_MAX\<close> when that number is larger.
\<close>

lemma strtoul_leading_digits_capped:
  assumes "takeWhile isdigit val \<noteq> []"
  shows "strtoul val = min (decimal 0 (takeWhile isdigit val)) ULONG_MAX"
proof -
  from assms obtain c cs where v: "val = c # cs" and c: "isdigit c"
    by (cases val) (auto split: if_splits)
  note n = digit_not_space [OF c]
  have d: "digits_of val = takeWhile isdigit val"
    using n by (simp add: digits_of_def v)
  have ng: "dropWhile isspace val = val" "hd val \<noteq> CHR ''-''"
    using n by (simp_all add: v)
  show ?thesis
    by (simp add: strtoul_def d Let_def min_def ng)
qed

text \<open>
  The loop over the arguments, case by case: \<^verbatim>\<open>-h\<close> and \<^verbatim>\<open>-v\<close> as the next
  argument print their text and return 0, an unknown option as the next argument prints
  the usage text and one error line and returns 2, and so does the end of the arguments
  when a host is missing; none of these runs makes another call.
\<close>

lemma arg_loop_help:
  "arg_loop ((CHR ''-'' # CHR ''h'' # x) # rest) src_host dst_host src_port dst_port w =
     ([Printf help_text], Ret 0 w)"
  by (simp add: is_option_def)

lemma arg_loop_version:
  "arg_loop ((CHR ''-'' # CHR ''v'' # x) # rest) src_host dst_host src_port dst_port w =
     ([Printf (PACKAGE_STRING @ ''\<newline>'')], Ret 0 w)"
  by (simp add: is_option_def)

lemma arg_loop_unknown:
  "c \<notin> set ''hvlsd'' \<Longrightarrow>
   arg_loop ((CHR ''-'' # c # x) # rest) src_host dst_host src_port dst_port w =
     ([Printf usage_text, xlog w LOG_ERR (Invalid_argument c)], Ret 2 w)"
  by (simp add: is_option_def)

lemma arg_loop_dash:
  "arg_loop (''-'' # rest) src_host dst_host src_port dst_port w =
     ([Printf usage_text, xlog w LOG_ERR (Invalid_argument (CHR 0x00))], Ret 2 w)"
  by (simp add: is_option_def)

lemma arg_loop_no_source:
  "arg_loop [] None dst_host src_port dst_port w =
     ([Printf usage_text, xlog w LOG_ERR Src_host_required], Ret 2 w)"
  by (simp add: after_args_def)

lemma arg_loop_no_destination:
  "arg_loop [] (Some sh) None src_port dst_port w =
     ([Printf usage_text, xlog w LOG_ERR Dst_host_required], Ret 2 w)"
  by (simp add: after_args_def)

text \<open>
  Every run of the loop over the arguments ends in one of five ways: the fault at a port
  option without a value, the help text or the version with status 0, the usage text and one error line with status
  2, or the call of \<^verbatim>\<open>main_loop\<close>.
\<close>

definition arg_outcome :: "int run \<Rightarrow> bool" where
  "arg_outcome r =
     (r = ([], Fault) \<or>
      (\<exists>w'. r = ([Printf help_text], Ret 0 w')) \<or>
      (\<exists>w'. r = ([Printf (PACKAGE_STRING @ ''\<newline>'')], Ret 0 w')) \<or>
      (\<exists>w' m. r = ([Printf usage_text, xlog w' LOG_ERR m], Ret 2 w')) \<or>
      (\<exists>sh sp dh dp w'. r = and_then (main_loop sh sp dh dp w') (\<lambda>_ w''. ([], Ret 0 w''))))"

lemma arg_outcome_intros:
  "arg_outcome ([], Fault)"
  "arg_outcome ([Printf help_text], Ret 0 w')"
  "arg_outcome ([Printf (PACKAGE_STRING @ ''\<newline>'')], Ret 0 w')"
  "arg_outcome ([Printf usage_text, xlog w' LOG_ERR m], Ret 2 w')"
  "arg_outcome (and_then (main_loop sh sp dh dp w') (\<lambda>_ w''. ([], Ret 0 w'')))"
  unfolding arg_outcome_def by blast+

lemma arg_loop_outcomes:
  "arg_outcome (arg_loop as src_host dst_host src_port dst_port w)"
proof (induction as src_host dst_host src_port dst_port w rule: arg_loop.induct)
  case (1 src_host dst_host src_port dst_port w)
  show ?case
    by (cases src_host; cases dst_host) (simp_all add: after_args_def arg_outcome_intros)
next
  case (2 a as src_host dst_host src_port dst_port w)
  show ?case
  proof (cases "is_option a")
    case False
    note ih = "2.IH"(6-8) [OF False]
    show ?thesis
    proof (cases "src_host = None")
      case True
      with False ih(1) show ?thesis by simp
    next
      case s: False
      show ?thesis
      proof (cases "dst_host = None")
        case True
        with False s ih(2) show ?thesis by auto
      next
        case d: False
        with False s ih(3) show ?thesis by auto
      qed
    qed
  next
    case True
    define c where "c = (if tl a = [] then CHR 0x00 else hd (tl a))"
    define val where "val = tl (tl a)"
    note ih = "2.IH"(1-5) [OF True c_def val_def]
    have step: "arg_loop (a # as) src_host dst_host src_port dst_port w =
      (if c = CHR ''h'' then ([Printf help_text], Ret 0 w)
       else if c = CHR ''v'' then ([Printf (PACKAGE_STRING @ ''\<newline>'')], Ret 0 w)
       else if c = CHR ''l''
         then arg_loop as src_host dst_host src_port dst_port (w\<lparr>send_to_syslog := True\<rparr>)
       else if c = CHR ''s''
         then (if val \<noteq> []
               then arg_loop as src_host dst_host (to_int (strtoul val)) dst_port w
               else (case as of
                       [] \<Rightarrow> ([], Fault)
                     | v # as' \<Rightarrow>
                         arg_loop as' src_host dst_host (to_int (strtoul v)) dst_port w))
       else if c = CHR ''d''
         then (if val \<noteq> []
               then arg_loop as src_host dst_host src_port (to_int (strtoul val)) w
               else (case as of
                       [] \<Rightarrow> ([], Fault)
                     | v # as' \<Rightarrow>
                         arg_loop as' src_host dst_host src_port (to_int (strtoul v)) w))
       else ([Printf usage_text, xlog w LOG_ERR (Invalid_argument c)], Ret 2 w))"
      using True by (simp add: c_def val_def Let_def)
    show ?thesis
      unfolding step using ih
      by (cases as) (simp_all add: arg_outcome_intros)
  qed
qed


lemmas strtoul_simps =
  strtoul_def digits_of_def isspace_def isdigit_def ULONG_MAX_def to_int_def Let_def

lemmas main_simps =
  main_def is_option_def after_args_def

section \<open>Scripts\<close>

text \<open>Scripts on which the claims are tried below.\<close>

definition sys_spent :: "bool \<Rightarrow> sys" where
  "sys_spent to_syslog =
     \<lparr>send_to_syslog = to_syslog, stack_bytes = [], socket_rs = [], setsockopt_rs = [],
      gethostbyname2_rs = [], connect_rs = [], read_rs = [], write_rs = []\<rparr>"

definition accepts_at_once :: sys where
  "accepts_at_once =
     (sys_spent False)\<lparr>socket_rs := [3], setsockopt_rs := [0, 0],
        gethostbyname2_rs := [Some \<lparr>h_addr_list = Some [7]\<rparr>], connect_rs := [0]\<rparr>"

definition refused_twice :: sys where
  "refused_twice =
     (sys_spent False)\<lparr>socket_rs := [- 1, 3], setsockopt_rs := [0, 0],
        gethostbyname2_rs := [Some \<lparr>h_addr_list = Some [7]\<rparr>],
        connect_rs := [- 1, - 1, 0]\<rparr>"

definition no_write_timeout :: sys where
  "no_write_timeout =
     (sys_spent False)\<lparr>socket_rs := [3], setsockopt_rs := [0, - 1],
        gethostbyname2_rs := [Some \<lparr>h_addr_list = Some [7]\<rparr>], connect_rs := [0]\<rparr>"

definition no_address :: sys where
  "no_address =
     (sys_spent False)\<lparr>socket_rs := [3], setsockopt_rs := [0, 0],
        gethostbyname2_rs := [Some \<lparr>h_addr_list = Some []\<rparr>], connect_rs := [0]\<rparr>"


definition source_closes :: sys where
  "source_closes =
     (sys_spent False)\<lparr>socket_rs := [5], setsockopt_rs := [0, 0],
        gethostbyname2_rs := [Some \<lparr>h_addr_list = Some [7]\<rparr>], connect_rs := [0],
        read_rs := [Rd_fail 0], write_rs := [5]\<rparr>"

definition destination_breaks :: sys where
  "destination_breaks =
     (sys_spent False)\<lparr>socket_rs := [5], setsockopt_rs := [0, 0],
        gethostbyname2_rs := [Some \<lparr>h_addr_list = Some [8]\<rparr>], connect_rs := [0],
        read_rs := [Rd_data ''hello'', Rd_data ''world''], write_rs := [- 1]\<rparr>"

definition burst :: sys where
  "burst =
     (sys_spent False)\<lparr>socket_rs := [3, 4], setsockopt_rs := [0, 0, 0, 0],
        gethostbyname2_rs := [Some \<lparr>h_addr_list = Some [8]\<rparr>, Some \<lparr>h_addr_list = Some [7]\<rparr>],
        connect_rs := [0, 0],
        read_rs := [Rd_data (replicate 2000 (CHR ''x''))], write_rs := [1024, 976]\<rparr>"

definition no_socket :: sys where
  "no_socket = (sys_spent False)\<lparr>socket_rs := [- 1, - 1]\<rparr>"

definition write_refused :: sys where
  "write_refused =
     (sys_spent False)\<lparr>socket_rs := [3, 4, 5], setsockopt_rs := [0, 0, 0, 0, 0, 0],
        gethostbyname2_rs := [Some \<lparr>h_addr_list = Some [8]\<rparr>, Some \<lparr>h_addr_list = Some [7]\<rparr>,
          Some \<lparr>h_addr_list = Some [8]\<rparr>],
        connect_rs := [0, 0, 0],
        read_rs := [Rd_data ''hello'', Rd_data ''world''], write_rs := [- 1, 5]\<rparr>"

section \<open>The claims about the connector\<close>

text \<open>
  The unfolding that evaluates \<^verbatim>\<open>socket_connect\<close> on a script that is written out.
\<close>

lemmas run_simps =
  socket_connect_def create_socket.simps connect_retry.simps set_timeouts_def resolve_def
  sys_socket_def sys_setsockopt_def sys_gethostbyname2_def sys_connect_def xlog_def
  LOG_WARNING_def LOG_ERR_def RETRY_SLEEP_def SOCKET_TIMEOUT_def htons_def

text \<open>
  C3, as the specification has it: the host name is resolved first, then the socket is
  created, then the timeouts are set, then the connection is attempted. On the script
  \<open>accepts_at_once\<close> the program calls \<^verbatim>\<open>socket\<close> and \<^verbatim>\<open>setsockopt\<close> before
  \<^verbatim>\<open>gethostbyname2\<close>, so the steps are not made in the order the specification gives.
\<close>

theorem resolution_is_not_the_first_step:
  "\<not> sorted (List.map_filter spec_step (fst (socket_connect ''dst'' 30001 accepts_at_once)))"
  by (simp add: accepts_at_once_def sys_spent_def run_simps)

text \<open>
  C3, amended. In every run of \<^verbatim>\<open>socket_connect\<close> the calls are made in the order of
  the source: \<^verbatim>\<open>socket\<close>, then the two \<^verbatim>\<open>setsockopt\<close>, then
  \<^verbatim>\<open>gethostbyname2\<close>, then \<^verbatim>\<open>connect\<close>. In every run \<^verbatim>\<open>socket\<close> is tried again
  after each failure: the run begins with the failed calls, each followed by its warning
  and its sleep, and what follows them is a \<^verbatim>\<open>socket\<close> call that succeeds, unless the
  script ends there; no failure of \<^verbatim>\<open>socket\<close> ends the process or the function. In
  every run \<^verbatim>\<open>connect\<close> is tried again after each failure: no \<^verbatim>\<open>connect\<close> is made
  before the first one, the refused calls, each followed by its warning and its sleep and
  all on one descriptor and address, come last, and what follows them is the accepted
  \<^verbatim>\<open>connect\<close>, with which the function returns that descriptor, unless the script ends
  there; the function returns in no other way, and a refused \<^verbatim>\<open>connect\<close> is never
  followed by an exit. A call that returns has gone through \<open>connected_trace\<close>. A timeout
  that cannot be set and a name that does not resolve end the process with status 1.
\<close>

theorem socket_connect_order:
  "sorted (List.map_filter code_step (fst (socket_connect host port w))) \<and>
   (\<exists>sfails rest.
      (\<forall>r\<in>set sfails. r < 0) \<and>
      fst (socket_connect host port w) =
        concat (map (socket_failure host port w) sfails) @ rest \<and>
      (rest = [] \<and> snd (socket_connect host port w) = Stall \<or>
       (\<exists>fd rest'. 0 \<le> fd \<and> rest = Socket fd # rest'))) \<and>
   (\<exists>pre fd a cfails rest.
      fst (socket_connect host port w) =
        pre @ concat (map (connect_failure host port fd a w) cfails) @ rest \<and>
      List.map_filter connect_addr pre = [] \<and> (\<forall>r\<in>set cfails. r < 0) \<and>
      (rest = [] \<and> (cfails \<noteq> [] \<longrightarrow> snd (socket_connect host port w) = Stall) \<and>
         (\<forall>fd' w'. snd (socket_connect host port w) \<noteq> Ret fd' w') \<or>
       (\<exists>ok w'. 0 \<le> ok \<and> rest = [Connect fd a (htons port) ok] \<and>
          snd (socket_connect host port w) = Ret fd w'))) \<and>
   (\<forall>fd w'. snd (socket_connect host port w) = Ret fd w' \<longrightarrow>
      (\<exists>sfails r1 r2 h a many cfails ok.
         (\<forall>r\<in>set sfails. r < 0) \<and> 0 \<le> fd \<and> 0 \<le> r1 \<and> 0 \<le> r2 \<and>
         (\<forall>r\<in>set cfails. r < 0) \<and> 0 \<le> ok \<and>
         fst (socket_connect host port w) =
           connected_trace host port w sfails fd r1 r2 h a many cfails ok)) \<and>
   (list_ex fatal_call (fst (socket_connect host port w)) \<longrightarrow>
      snd (socket_connect host port w) = Exit 1)"
proof (intro conjI allI impI)
  show "sorted (List.map_filter code_step (fst (socket_connect host port w)))"
    by (rule socket_connect_steps_sorted)
next
  show "\<exists>sfails rest.
      (\<forall>r\<in>set sfails. r < 0) \<and>
      fst (socket_connect host port w) =
        concat (map (socket_failure host port w) sfails) @ rest \<and>
      (rest = [] \<and> snd (socket_connect host port w) = Stall \<or>
       (\<exists>fd rest'. 0 \<le> fd \<and> rest = Socket fd # rest'))"
    using socket_retried_socket_connect [of host port w]
    unfolding socket_retried_def .
next
  show "\<exists>pre fd a cfails rest.
      fst (socket_connect host port w) =
        pre @ concat (map (connect_failure host port fd a w) cfails) @ rest \<and>
      List.map_filter connect_addr pre = [] \<and> (\<forall>r\<in>set cfails. r < 0) \<and>
      (rest = [] \<and> (cfails \<noteq> [] \<longrightarrow> snd (socket_connect host port w) = Stall) \<and>
         (\<forall>fd' w'. snd (socket_connect host port w) \<noteq> Ret fd' w') \<or>
       (\<exists>ok w'. 0 \<le> ok \<and> rest = [Connect fd a (htons port) ok] \<and>
          snd (socket_connect host port w) = Ret fd w'))"
    using connect_retried_socket_connect [of host port w]
    unfolding connect_retried_def .
next
  fix fd w'
  assume "snd (socket_connect host port w) = Ret fd w'"
  then have "socket_connect host port w = (fst (socket_connect host port w), Ret fd w')"
    by (metis prod.collapse)
  then show "\<exists>sfails r1 r2 h a many cfails ok.
         (\<forall>r\<in>set sfails. r < 0) \<and> 0 \<le> fd \<and> 0 \<le> r1 \<and> 0 \<le> r2 \<and>
         (\<forall>r\<in>set cfails. r < 0) \<and> 0 \<le> ok \<and>
         fst (socket_connect host port w) =
           connected_trace host port w sfails fd r1 r2 h a many cfails ok"
    by (rule socket_connect_RetE) blast
next
  assume "list_ex fatal_call (fst (socket_connect host port w))"
  then show "snd (socket_connect host port w) = Exit 1"
    using exits_on_fatal_socket_connect [of host port w]
    unfolding exits_on_fatal_def by blast
qed

text \<open>
  The order and the retries on a script where \<^verbatim>\<open>socket\<close> fails once and \<^verbatim>\<open>connect\<close>
  is refused twice, the retries on a script where \<^verbatim>\<open>socket\<close> fails at every call, and
  the exit on a script where the write timeout cannot be set.
\<close>

theorem socket_connect_order_witness:
  "sorted (List.map_filter code_step (fst (socket_connect ''dst'' 30001 refused_twice))) \<and>
   List.map_filter code_step (fst (socket_connect ''dst'' 30001 refused_twice)) =
     [1, 1, 2, 2, 3, 4, 4, 4] \<and>
   snd (socket_connect ''dst'' 30001 refused_twice) = Ret 3 (sys_spent False) \<and>
   fst (socket_connect ''dst'' 30001 refused_twice) =
     [Socket (- 1), Stderr ''warning'' (Failed_create_socket ''dst'' 30001), Sleep 1,
      Socket 3, Setsockopt 3 SO_RCVTIMEO 5 0 0, Setsockopt 3 SO_SNDTIMEO 5 0 0,
      Gethostbyname2 ''dst'' (Some \<lparr>h_addr_list = Some [7]\<rparr>),
      Connect 3 7 30001 (- 1), Stderr ''warning'' (Failed_connect ''dst'' 30001), Sleep 1,
      Connect 3 7 30001 (- 1), Stderr ''warning'' (Failed_connect ''dst'' 30001), Sleep 1,
      Connect 3 7 30001 0] \<and>
   socket_connect ''dst'' 30001 no_socket =
     ([Socket (- 1), Stderr ''warning'' (Failed_create_socket ''dst'' 30001), Sleep 1,
       Socket (- 1), Stderr ''warning'' (Failed_create_socket ''dst'' 30001), Sleep 1],
      Stall) \<and>
   list_ex fatal_call (fst (socket_connect ''src'' 30002 no_write_timeout)) \<and>
   snd (socket_connect ''src'' 30002 no_write_timeout) = Exit 1"
proof -
  have a: "snd (socket_connect ''dst'' 30001 refused_twice) = Ret 3 (sys_spent False)"
    by (simp add: refused_twice_def sys_spent_def run_simps)
  have b: "list_ex fatal_call (fst (socket_connect ''src'' 30002 no_write_timeout))"
    by (simp add: no_write_timeout_def sys_spent_def run_simps)
  have c: "List.map_filter code_step (fst (socket_connect ''dst'' 30001 refused_twice)) =
     [1, 1, 2, 2, 3, 4, 4, 4]"
    by (simp add: refused_twice_def sys_spent_def run_simps)
  have d: "fst (socket_connect ''dst'' 30001 refused_twice) =
     [Socket (- 1), Stderr ''warning'' (Failed_create_socket ''dst'' 30001), Sleep 1,
      Socket 3, Setsockopt 3 SO_RCVTIMEO 5 0 0, Setsockopt 3 SO_SNDTIMEO 5 0 0,
      Gethostbyname2 ''dst'' (Some \<lparr>h_addr_list = Some [7]\<rparr>),
      Connect 3 7 30001 (- 1), Stderr ''warning'' (Failed_connect ''dst'' 30001), Sleep 1,
      Connect 3 7 30001 (- 1), Stderr ''warning'' (Failed_connect ''dst'' 30001), Sleep 1,
      Connect 3 7 30001 0]"
    by (simp add: refused_twice_def sys_spent_def run_simps)
  have e: "socket_connect ''dst'' 30001 no_socket =
     ([Socket (- 1), Stderr ''warning'' (Failed_create_socket ''dst'' 30001), Sleep 1,
       Socket (- 1), Stderr ''warning'' (Failed_create_socket ''dst'' 30001), Sleep 1],
      Stall)"
    by (simp add: no_socket_def sys_spent_def run_simps)
  have s: "sorted (List.map_filter code_step (fst (socket_connect ''dst'' 30001 refused_twice)))"
    using socket_connect_order [of "''dst''" 30001 refused_twice] by (rule conjunct1)
  have "list_ex fatal_call (fst (socket_connect ''src'' 30002 no_write_timeout)) \<longrightarrow>
      snd (socket_connect ''src'' 30002 no_write_timeout) = Exit 1"
    using socket_connect_order [of "''src''" 30002 no_write_timeout]
    by (rule conjunct2 [OF conjunct2 [OF conjunct2 [OF conjunct2]]])
  then have x: "snd (socket_connect ''src'' 30002 no_write_timeout) = Exit 1"
    using b by (rule mp)
  show ?thesis
    by (intro conjI s c a d e b x)
qed



text \<open>
  C5. \<^verbatim>\<open>socket_connect\<close> ends the process exactly when a timeout cannot be set or the
  name gives no address (\<open>fatal_call\<close>). The status is then 1, and the run ends with the
  failed call and one line at error level: nothing is tried again, and no fatal call came
  before. The function never faults.
\<close>

theorem socket_connect_exits_on_fatal_only:
  assumes "socket_connect host port w = (es, out)"
  shows "((\<exists>c. out = Exit c) \<longleftrightarrow> list_ex fatal_call es) \<and> out \<noteq> Fault \<and>
         (\<forall>c. out = Exit c \<longrightarrow>
            c = 1 \<and> (\<exists>pre call line. es = pre @ [call, line] \<and> fatal_call call \<and>
                       error_line line \<and> \<not> list_ex fatal_call pre))"
  using exits_on_fatal_socket_connect [of host port w] assms
  by (simp add: exits_on_fatal_def)

text \<open>A host without an address: the process ends after the resolution and one error line.\<close>

theorem socket_connect_exits_on_fatal_only_witness:
  "socket_connect ''nowhere'' 30002 no_address =
     ([Socket 3, Setsockopt 3 SO_RCVTIMEO 5 0 0, Setsockopt 3 SO_SNDTIMEO 5 0 0,
       Gethostbyname2 ''nowhere'' (Some \<lparr>h_addr_list = Some []\<rparr>),
       Stderr ''error'' (No_ipv4_address ''nowhere'')], Exit 1) \<and>
   list_ex fatal_call
     [Socket 3, Setsockopt 3 SO_RCVTIMEO 5 0 0, Setsockopt 3 SO_SNDTIMEO 5 0 0,
      Gethostbyname2 ''nowhere'' (Some \<lparr>h_addr_list = Some []\<rparr>),
      Stderr ''error'' (No_ipv4_address ''nowhere'')] \<and>
   (\<exists>pre call line.
      [Socket 3, Setsockopt 3 SO_RCVTIMEO 5 0 0, Setsockopt 3 SO_SNDTIMEO 5 0 0,
       Gethostbyname2 ''nowhere'' (Some \<lparr>h_addr_list = Some []\<rparr>),
       Stderr ''error'' (No_ipv4_address ''nowhere'')] = pre @ [call, line] \<and>
      fatal_call call \<and> error_line line \<and> \<not> list_ex fatal_call pre)"
proof -
  have r: "socket_connect ''nowhere'' 30002 no_address =
     ([Socket 3, Setsockopt 3 SO_RCVTIMEO 5 0 0, Setsockopt 3 SO_SNDTIMEO 5 0 0,
       Gethostbyname2 ''nowhere'' (Some \<lparr>h_addr_list = Some []\<rparr>),
       Stderr ''error'' (No_ipv4_address ''nowhere'')], Exit 1)"
    by (simp add: no_address_def sys_spent_def run_simps)
  from socket_connect_exits_on_fatal_only [OF r] r show ?thesis
    by simp
qed




section \<open>The claims about the relay loop\<close>

text \<open>
  C1. A pass of the loop whose \<^verbatim>\<open>read\<close> returns zero or less makes these calls: the
  \<^verbatim>\<open>read\<close>, \<^verbatim>\<open>close(src)\<close>, and then the calls of
  \<^verbatim>\<open>socket_connect(src_host, src_port)\<close>. It makes no \<^verbatim>\<open>write\<close> and closes nothing
  else. When the connector returns, the pass ends with its result as the new \<^verbatim>\<open>src\<close>,
  with \<^verbatim>\<open>dst\<close> as it was, and with no answer of \<^verbatim>\<open>write\<close> used up.
\<close>

theorem failed_read_reconnects_source:
  assumes "sys_read BUFFER_SIZE buf w = Some (rv, got, buf', w1)" and "rv \<le> 0"
  shows "fst (relay_step src_host src_port dst_host dst_port dst src buf w) =
           [Read src BUFFER_SIZE got rv, Close src] @ fst (socket_connect src_host src_port w1) \<and>
         filter loop_call (fst (relay_step src_host src_port dst_host dst_port dst src buf w)) =
           [Read src BUFFER_SIZE got rv, Close src] \<and>
         (\<forall>x w'. snd (relay_step src_host src_port dst_host dst_port dst src buf w) = Ret x w' \<longleftrightarrow>
            (\<exists>src'. x = (dst, src', buf') \<and>
               snd (socket_connect src_host src_port w1) = Ret src' w')) \<and>
         (\<forall>x w'. snd (relay_step src_host src_port dst_host dst_port dst src buf w) = Ret x w' \<longrightarrow>
            write_rs w' = write_rs w)"
proof -
  let ?c = "socket_connect src_host src_port w1"
  have step: "relay_step src_host src_port dst_host dst_port dst src buf w =
          emit [Read src BUFFER_SIZE got rv, Close src]
            (and_then ?c (\<lambda>src' w2. ([], Ret (dst, src', buf') w2)))"
    using assms by (simp add: relay_step_def)
  have w1: "write_rs w1 = write_rs w"
    using assms(1)
    by (auto simp: sys_read_def Let_def split: list.splits rd.splits if_splits)
  have io: "write_rs w' = write_rs w1" if "snd ?c = Ret src' w'" for src' w'
    using that socket_connect_same_io [of src_host src_port w1 "fst ?c" src' w']
    by (simp add: same_io_def) (metis prod.collapse)
  show ?thesis
    unfolding step
    by (auto simp: fst_and_then snd_and_then_Ret w1 io split: result.splits)
qed

text \<open>The source closes: descriptor 4 is closed, descriptor 5 replaces it, 3 stays.\<close>

theorem failed_read_reconnects_source_witness:
  "relay_step ''src'' 30002 ''dst'' 30001 3 4 [] source_closes =
     ([Read 4 1024 [] 0, Close 4, Socket 5, Setsockopt 5 SO_RCVTIMEO 5 0 0,
       Setsockopt 5 SO_SNDTIMEO 5 0 0, Gethostbyname2 ''src'' (Some \<lparr>h_addr_list = Some [7]\<rparr>),
       Connect 5 7 30002 0],
      Ret (3, 5, []) ((sys_spent False)\<lparr>write_rs := [5]\<rparr>))"
proof -
  let ?w1 = "source_closes\<lparr>read_rs := []\<rparr>"
  have r: "sys_read BUFFER_SIZE [] source_closes = Some (0, [], [], ?w1)"
    by (simp add: sys_read_def source_closes_def sys_spent_def Let_def)
  have c: "socket_connect ''src'' 30002 ?w1 =
     ([Socket 5, Setsockopt 5 SO_RCVTIMEO 5 0 0,
       Setsockopt 5 SO_SNDTIMEO 5 0 0, Gethostbyname2 ''src'' (Some \<lparr>h_addr_list = Some [7]\<rparr>),
       Connect 5 7 30002 0], Ret 5 ((sys_spent False)\<lparr>write_rs := [5]\<rparr>))"
    by (simp add: source_closes_def sys_spent_def run_simps)
  from failed_read_reconnects_source [OF r, of "''src''" 30002 "''dst''" 30001 3 4] c
  show ?thesis
    by (simp add: prod_eq_iff BUFFER_SIZE_def)
qed

text \<open>
  C2. A pass of the loop whose \<^verbatim>\<open>read\<close> returns a chunk and whose \<^verbatim>\<open>write\<close> returns
  zero or less makes these calls: the \<^verbatim>\<open>read\<close>, one \<^verbatim>\<open>write\<close> of the chunk,
  \<^verbatim>\<open>close(dst)\<close>, and then the calls of \<^verbatim>\<open>socket_connect(dst_host, dst_port)\<close>. The
  chunk is handed to \<^verbatim>\<open>write\<close> that one time only: the pass has no other
  \<^verbatim>\<open>write\<close>, and in the rest of the run every \<^verbatim>\<open>write\<close> carries a chunk that a
  \<^verbatim>\<open>read\<close> of that rest returned. When the connector returns, the pass ends with its
  result as the new \<^verbatim>\<open>dst\<close>, with \<^verbatim>\<open>src\<close> as it was, and with the answers of
  \<^verbatim>\<open>read\<close> as the \<^verbatim>\<open>read\<close> of this pass left them.
\<close>

theorem failed_write_reconnects_destination:
  assumes "sys_read BUFFER_SIZE buf w = Some (rv, got, buf', w1)" and "0 < rv"
    and "sys_write w1 = Some (rv', w2)" and "rv' \<le> 0"
  shows "fst (relay_step src_host src_port dst_host dst_port dst src buf w) =
           [Read src BUFFER_SIZE got rv, Write dst got rv', Close dst] @
           fst (socket_connect dst_host dst_port w2) \<and>
         filter loop_call (fst (relay_step src_host src_port dst_host dst_port dst src buf w)) =
           [Read src BUFFER_SIZE got rv, Write dst got rv', Close dst] \<and>
         (\<forall>x w'. snd (relay_step src_host src_port dst_host dst_port dst src buf w) = Ret x w' \<longleftrightarrow>
            (\<exists>dst'. x = (dst', src, buf') \<and>
               snd (socket_connect dst_host dst_port w2) = Ret dst' w')) \<and>
         (\<forall>x w'. snd (relay_step src_host src_port dst_host dst_port dst src buf w) = Ret x w' \<longrightarrow>
            read_rs w' = read_rs w1) \<and>
         (\<exists>rest pending.
            fst (main_iter src_host src_port dst_host dst_port dst src buf w) =
              fst (relay_step src_host src_port dst_host dst_port dst src buf w) @ rest \<and>
            List.map_filter read_chunk rest = List.map_filter written_chunk rest @ pending)"
proof -
  let ?c = "socket_connect dst_host dst_port w2"
  have step: "relay_step src_host src_port dst_host dst_port dst src buf w =
          emit [Read src BUFFER_SIZE got rv, Write dst got rv', Close dst]
            (and_then ?c (\<lambda>dst' w3. ([], Ret (dst', src, buf') w3)))"
    using assms sys_read_got(2) [OF assms(1,2)] by (simp add: relay_step_def)
  have w2: "read_rs w2 = read_rs w1"
    using assms(3) by (auto simp: sys_write_def split: list.splits)
  have io: "read_rs w' = read_rs w2" if "snd ?c = Ret dst' w'" for dst' w'
    using that socket_connect_same_io [of dst_host dst_port w2 "fst ?c" dst' w']
    by (simp add: same_io_def) (metis prod.collapse)
  have "fst (relay_step src_host src_port dst_host dst_port dst src buf w) =
           [Read src BUFFER_SIZE got rv, Write dst got rv', Close dst] @
           fst (socket_connect dst_host dst_port w2) \<and>
         filter loop_call (fst (relay_step src_host src_port dst_host dst_port dst src buf w)) =
           [Read src BUFFER_SIZE got rv, Write dst got rv', Close dst] \<and>
         (\<forall>x w'. snd (relay_step src_host src_port dst_host dst_port dst src buf w) = Ret x w' \<longleftrightarrow>
            (\<exists>dst'. x = (dst', src, buf') \<and>
               snd (socket_connect dst_host dst_port w2) = Ret dst' w')) \<and>
         (\<forall>x w'. snd (relay_step src_host src_port dst_host dst_port dst src buf w) = Ret x w' \<longrightarrow>
            read_rs w' = read_rs w1)"
    unfolding step
    by (auto simp: fst_and_then snd_and_then_Ret w2 io split: result.splits)
  then show ?thesis
    using main_iter_after_step [of src_host src_port dst_host dst_port dst src buf w]
    by blast
qed

text \<open>
  The destination breaks: \<open>hello\<close> is written once, descriptor 3 is closed, descriptor
  5 replaces it, 4 stays, and \<open>world\<close> is the next to be read.
\<close>

theorem failed_write_reconnects_destination_witness:
  "relay_step ''src'' 30002 ''dst'' 30001 3 4 [] destination_breaks =
     ([Read 4 1024 ''hello'' 5, Write 3 ''hello'' (- 1), Close 3, Socket 5,
       Setsockopt 5 SO_RCVTIMEO 5 0 0, Setsockopt 5 SO_SNDTIMEO 5 0 0,
       Gethostbyname2 ''dst'' (Some \<lparr>h_addr_list = Some [8]\<rparr>), Connect 5 8 30001 0],
      Ret (5, 4, ''hello'') ((sys_spent False)\<lparr>read_rs := [Rd_data ''world'']\<rparr>))"
proof -
  let ?w1 = "destination_breaks\<lparr>read_rs := [Rd_data ''world'']\<rparr>"
  let ?w2 = "?w1\<lparr>write_rs := []\<rparr>"
  have r: "sys_read BUFFER_SIZE [] destination_breaks = Some (5, ''hello'', ''hello'', ?w1)"
    by (simp add: sys_read_def destination_breaks_def sys_spent_def BUFFER_SIZE_def Let_def)
  have w: "sys_write ?w1 = Some (- 1, ?w2)"
    by (simp add: sys_write_def destination_breaks_def sys_spent_def)
  have c: "socket_connect ''dst'' 30001 ?w2 =
     ([Socket 5, Setsockopt 5 SO_RCVTIMEO 5 0 0, Setsockopt 5 SO_SNDTIMEO 5 0 0,
       Gethostbyname2 ''dst'' (Some \<lparr>h_addr_list = Some [8]\<rparr>), Connect 5 8 30001 0],
      Ret 5 ((sys_spent False)\<lparr>read_rs := [Rd_data ''world'']\<rparr>))"
    by (simp add: destination_breaks_def sys_spent_def run_simps)
  from failed_write_reconnects_destination [OF r _ w, of "''src''" 30002 "''dst''" 30001 3 4] c
  show ?thesis
    by (simp add: prod_eq_iff BUFFER_SIZE_def)
qed

text \<open>
  C6, as it is stated: in every iteration whose \<^verbatim>\<open>read\<close> result is strictly positive
  the bytes returned by the \<^verbatim>\<open>read\<close> are written to the destination connection, and
  no byte is lost. On the script \<open>write_refused\<close> the first \<^verbatim>\<open>read\<close> returns the five
  bytes \<^verbatim>\<open>hello\<close>, with result 5, and the \<^verbatim>\<open>write\<close> of that iteration returns -1:
  the destination is closed and connected again, and the next iteration relays
  \<^verbatim>\<open>world\<close>. Both iterations have a strictly positive \<^verbatim>\<open>read\<close> result; of the ten
  bytes they read, the destination took \<^verbatim>\<open>world\<close> only.
\<close>

theorem chunk_of_a_failed_write_is_lost:
  "main_loop ''src'' 30002 ''dst'' 30001 write_refused =
     ([Socket 3, Setsockopt 3 SO_RCVTIMEO 5 0 0, Setsockopt 3 SO_SNDTIMEO 5 0 0,
       Gethostbyname2 ''dst'' (Some \<lparr>h_addr_list = Some [8]\<rparr>), Connect 3 8 30001 0,
       Socket 4, Setsockopt 4 SO_RCVTIMEO 5 0 0, Setsockopt 4 SO_SNDTIMEO 5 0 0,
       Gethostbyname2 ''src'' (Some \<lparr>h_addr_list = Some [7]\<rparr>), Connect 4 7 30002 0,
       Read 4 1024 ''hello'' 5, Write 3 ''hello'' (- 1), Close 3,
       Socket 5, Setsockopt 5 SO_RCVTIMEO 5 0 0, Setsockopt 5 SO_SNDTIMEO 5 0 0,
       Gethostbyname2 ''dst'' (Some \<lparr>h_addr_list = Some [8]\<rparr>), Connect 5 8 30001 0,
       Read 4 1024 ''world'' 5, Write 5 ''world'' 5],
      Stall) \<and>
   concat (List.map_filter read_chunk (fst (main_loop ''src'' 30002 ''dst'' 30001 write_refused))) =
     ''helloworld'' \<and>
   concat (List.map_filter accepted (fst (main_loop ''src'' 30002 ''dst'' 30001 write_refused))) =
     ''world''"
proof -
  have r: "main_loop ''src'' 30002 ''dst'' 30001 write_refused =
     ([Socket 3, Setsockopt 3 SO_RCVTIMEO 5 0 0, Setsockopt 3 SO_SNDTIMEO 5 0 0,
       Gethostbyname2 ''dst'' (Some \<lparr>h_addr_list = Some [8]\<rparr>), Connect 3 8 30001 0,
       Socket 4, Setsockopt 4 SO_RCVTIMEO 5 0 0, Setsockopt 4 SO_SNDTIMEO 5 0 0,
       Gethostbyname2 ''src'' (Some \<lparr>h_addr_list = Some [7]\<rparr>), Connect 4 7 30002 0,
       Read 4 1024 ''hello'' 5, Write 3 ''hello'' (- 1), Close 3,
       Socket 5, Setsockopt 5 SO_RCVTIMEO 5 0 0, Setsockopt 5 SO_SNDTIMEO 5 0 0,
       Gethostbyname2 ''dst'' (Some \<lparr>h_addr_list = Some [8]\<rparr>), Connect 5 8 30001 0,
       Read 4 1024 ''world'' 5, Write 5 ''world'' 5],
      Stall)"
    by (simp add: write_refused_def sys_spent_def run_simps loop_simps)
  show ?thesis
    unfolding r by (simp add: List.map_filter_simps)
qed

text \<open>
  C6, amended. In every run of \<^verbatim>\<open>main_loop\<close>, each chunk that a \<^verbatim>\<open>read\<close> returned with
  a positive result is not empty and at most \<open>BUFFER_SIZE\<close> = 1024 bytes long, and the
  chunks handed to \<^verbatim>\<open>write\<close> are these chunks, each as it was read, one \<^verbatim>\<open>write\<close>
  for one \<^verbatim>\<open>read\<close>, in the order in which they were read; the one exception is the end
  of the script, where the chunk read last has no \<^verbatim>\<open>write\<close> yet when the run is cut
  between the two calls. The run is a trace of \<open>relay_trace\<close>: every \<^verbatim>\<open>read\<close> is made
  on the descriptor of the latest accepted \<^verbatim>\<open>connect\<close> of the source, and the
  \<^verbatim>\<open>write\<close> that follows a positive \<^verbatim>\<open>read\<close> is made on the descriptor of the latest
  accepted \<^verbatim>\<open>connect\<close> of the destination, with the chunk of that \<^verbatim>\<open>read\<close>. What the
  destination took is, \<^verbatim>\<open>write\<close> by \<^verbatim>\<open>write\<close>, the first bytes of the chunk read in
  that iteration, and when every \<^verbatim>\<open>write\<close> of the run returned the length of its chunk,
  the bytes the destination took are the bytes read, all of them and in order, up to the
  chunk read last at the end of the script.
\<close>

theorem chunks_written_are_chunks_read:
  assumes "main_loop src_host src_port dst_host dst_port w = (es, out)"
  shows "(\<forall>c\<in>set (List.map_filter read_chunk es). c \<noteq> [] \<and> length c \<le> 1024) \<and>
         (\<exists>pending. List.map_filter read_chunk es =
            List.map_filter written_chunk es @ pending \<and> length pending \<le> 1 \<and>
            (pending \<noteq> [] \<longrightarrow> out = Stall)) \<and>
         relay_trace src_host src_port dst_host dst_port Dst_first es \<and>
         list_all2 (\<lambda>p c. p = take (length p) c) (List.map_filter accepted es)
           (take (length (List.map_filter accepted es)) (List.map_filter read_chunk es)) \<and>
         ((\<forall>e\<in>set es. whole_write e) \<longrightarrow>
            (\<exists>pending. concat (List.map_filter read_chunk es) =
               concat (List.map_filter accepted es) @ concat pending \<and> length pending \<le> 1 \<and>
               (pending \<noteq> [] \<longrightarrow> out = Stall)))"
proof -
  from main_loop_relays [of src_host src_port dst_host dst_port w] assms
  have chunks: "\<forall>c\<in>set (List.map_filter read_chunk es). c \<noteq> [] \<and> length c \<le> 1024"
    and "\<exists>pending. List.map_filter read_chunk es =
            List.map_filter written_chunk es @ pending \<and> length pending \<le> 1 \<and>
            (pending \<noteq> [] \<longrightarrow> out = Stall)"
    by (simp_all add: relays_def BUFFER_SIZE_def)
  then obtain pending where
    p: "List.map_filter read_chunk es = List.map_filter written_chunk es @ pending"
      "length pending \<le> 1" "pending \<noteq> [] \<longrightarrow> out = Stall"
    by blast
  have tr: "relay_trace src_host src_port dst_host dst_port Dst_first es"
    using main_loop_trace [of src_host src_port dst_host dst_port w] assms by simp
  have len: "length (List.map_filter accepted es) = length (List.map_filter written_chunk es)"
    using accepted_pieces [of es] by (rule list_all2_lengthD)
  have pieces: "list_all2 (\<lambda>p c. p = take (length p) c) (List.map_filter accepted es)
           (take (length (List.map_filter accepted es)) (List.map_filter read_chunk es))"
    using accepted_pieces [of es] by (simp add: len p(1))
  have whole: "\<exists>pending. concat (List.map_filter read_chunk es) =
               concat (List.map_filter accepted es) @ concat pending \<and> length pending \<le> 1 \<and>
               (pending \<noteq> [] \<longrightarrow> out = Stall)"
    if "\<forall>e\<in>set es. whole_write e"
  proof -
    have "concat (List.map_filter read_chunk es) =
            concat (List.map_filter accepted es) @ concat pending"
      using accepted_whole [OF that] p(1) by simp
    then show ?thesis using p(2,3) by blast
  qed
  from chunks p tr pieces whole show ?thesis
    by blast
qed

text \<open>
  A burst of 2000 bytes from the source: it reaches the destination, on descriptor 3, as
  a chunk of 1024 bytes followed by a chunk of 976 bytes, both read on descriptor 4.
\<close>

theorem chunks_written_are_chunks_read_witness:
  "main_loop ''src'' 30002 ''dst'' 30001 burst =
     ([Socket 3, Setsockopt 3 SO_RCVTIMEO 5 0 0, Setsockopt 3 SO_SNDTIMEO 5 0 0,
       Gethostbyname2 ''dst'' (Some \<lparr>h_addr_list = Some [8]\<rparr>), Connect 3 8 30001 0,
       Socket 4, Setsockopt 4 SO_RCVTIMEO 5 0 0, Setsockopt 4 SO_SNDTIMEO 5 0 0,
       Gethostbyname2 ''src'' (Some \<lparr>h_addr_list = Some [7]\<rparr>), Connect 4 7 30002 0,
       Read 4 1024 (replicate 1024 (CHR ''x'')) 1024, Write 3 (replicate 1024 (CHR ''x'')) 1024,
       Read 4 1024 (replicate 976 (CHR ''x'')) 976, Write 3 (replicate 976 (CHR ''x'')) 976],
      Stall) \<and>
   List.map_filter written_chunk (fst (main_loop ''src'' 30002 ''dst'' 30001 burst)) =
     [replicate 1024 (CHR ''x''), replicate 976 (CHR ''x'')] \<and>
   (\<exists>pending. List.map_filter read_chunk (fst (main_loop ''src'' 30002 ''dst'' 30001 burst)) =
      List.map_filter written_chunk (fst (main_loop ''src'' 30002 ''dst'' 30001 burst)) @ pending
      \<and> length pending \<le> 1) \<and>
   relay_trace ''src'' 30002 ''dst'' 30001 Dst_first
     (fst (main_loop ''src'' 30002 ''dst'' 30001 burst)) \<and>
   list_all whole_write (fst (main_loop ''src'' 30002 ''dst'' 30001 burst)) \<and>
   (\<exists>pending. concat (List.map_filter read_chunk (fst (main_loop ''src'' 30002 ''dst'' 30001 burst))) =
      concat (List.map_filter accepted (fst (main_loop ''src'' 30002 ''dst'' 30001 burst))) @
        concat pending \<and> length pending \<le> 1)"
proof -
  have r: "main_loop ''src'' 30002 ''dst'' 30001 burst =
     ([Socket 3, Setsockopt 3 SO_RCVTIMEO 5 0 0, Setsockopt 3 SO_SNDTIMEO 5 0 0,
       Gethostbyname2 ''dst'' (Some \<lparr>h_addr_list = Some [8]\<rparr>), Connect 3 8 30001 0,
       Socket 4, Setsockopt 4 SO_RCVTIMEO 5 0 0, Setsockopt 4 SO_SNDTIMEO 5 0 0,
       Gethostbyname2 ''src'' (Some \<lparr>h_addr_list = Some [7]\<rparr>), Connect 4 7 30002 0,
       Read 4 1024 (replicate 1024 (CHR ''x'')) 1024, Write 3 (replicate 1024 (CHR ''x'')) 1024,
       Read 4 1024 (replicate 976 (CHR ''x'')) 976, Write 3 (replicate 976 (CHR ''x'')) 976],
      Stall)"
    by (simp add: burst_def sys_spent_def run_simps loop_simps)
  have w: "\<forall>e\<in>set (fst (main_loop ''src'' 30002 ''dst'' 30001 burst)). whole_write e"
    unfolding r by simp
  have c: "List.map_filter written_chunk (fst (main_loop ''src'' 30002 ''dst'' 30001 burst)) =
     [replicate 1024 (CHR ''x''), replicate 976 (CHR ''x'')]"
    unfolding r by (simp add: List.map_filter_simps)
  note t = chunks_written_are_chunks_read [OF r]
  from t have "\<exists>pending. List.map_filter read_chunk (fst (main_loop ''src'' 30002 ''dst'' 30001 burst)) =
      List.map_filter written_chunk (fst (main_loop ''src'' 30002 ''dst'' 30001 burst)) @ pending
      \<and> length pending \<le> 1"
    unfolding r fst_conv by blast
  moreover from t have "relay_trace ''src'' 30002 ''dst'' 30001 Dst_first
     (fst (main_loop ''src'' 30002 ''dst'' 30001 burst))"
    unfolding r fst_conv by blast
  moreover from t w have "\<exists>pending. concat (List.map_filter read_chunk (fst (main_loop ''src'' 30002 ''dst'' 30001 burst))) =
      concat (List.map_filter accepted (fst (main_loop ''src'' 30002 ''dst'' 30001 burst))) @
        concat pending \<and> length pending \<le> 1"
    unfolding r fst_conv by blast
  moreover have "list_all whole_write (fst (main_loop ''src'' 30002 ''dst'' 30001 burst))"
    using w by (simp only: list_all_iff)
  ultimately show ?thesis
    using r c by blast
qed

text \<open>
  C7. \<^verbatim>\<open>main_loop\<close> begins with the whole run of the connector for the destination.
  When that run returns, its last event is the accepted \<^verbatim>\<open>connect\<close> on the descriptor
  returned, and only then do the events of the connector for the source follow. When it
  does not return, \<^verbatim>\<open>main_loop\<close> makes no further call and does not return either.
\<close>

theorem destination_is_connected_first:
  assumes "socket_connect dst_host dst_port w = (es1, out1)"
  shows "(\<forall>dst w1. out1 = Ret dst w1 \<longrightarrow>
            (\<exists>pre a ok. es1 = pre @ [Connect dst a (htons dst_port) ok] \<and> 0 \<le> ok) \<and>
            (\<exists>rest. fst (main_loop src_host src_port dst_host dst_port w) =
               es1 @ fst (socket_connect src_host src_port w1) @ rest)) \<and>
         ((\<forall>dst w1. out1 \<noteq> Ret dst w1) \<longrightarrow>
            fst (main_loop src_host src_port dst_host dst_port w) = es1 \<and>
            (\<forall>u w'. snd (main_loop src_host src_port dst_host dst_port w) \<noteq> Ret u w'))"
proof (intro conjI allI impI)
  fix dst w1
  assume r: "out1 = Ret dst w1"
  from assms [unfolded r] obtain sfails r1 r2 h a many cfails ok where
    "es1 = connected_trace dst_host dst_port w sfails dst r1 r2 h a many cfails ok" "0 \<le> ok"
    by (rule socket_connect_RetE)
  then have "es1 = (butlast es1) @ [Connect dst a (htons dst_port) ok] \<and> 0 \<le> ok"
    by (simp add: connected_trace_def butlast_append)
  then show "\<exists>pre a ok. es1 = pre @ [Connect dst a (htons dst_port) ok] \<and> 0 \<le> ok"
    by blast
  show "\<exists>rest. fst (main_loop src_host src_port dst_host dst_port w) =
               es1 @ fst (socket_connect src_host src_port w1) @ rest"
    by (simp add: main_loop_def assms r fst_and_then)
next
  assume n: "\<forall>dst w1. out1 \<noteq> Ret dst w1"
  then show "fst (main_loop src_host src_port dst_host dst_port w) = es1"
    by (cases out1) (simp_all add: main_loop_def assms)
  fix u w'
  show "snd (main_loop src_host src_port dst_host dst_port w) \<noteq> Ret u w'"
    using n by (cases out1) (simp_all add: main_loop_def assms)
qed

text \<open>
  On the script \<open>burst\<close> the five events of the destination's connector come first and
  the five of the source's connector next. On the script \<open>no_address\<close> the destination
  does not resolve: the source is never tried.
\<close>

theorem destination_is_connected_first_witness:
  "(\<exists>rest. fst (main_loop ''src'' 30002 ''dst'' 30001 burst) =
      [Socket 3, Setsockopt 3 SO_RCVTIMEO 5 0 0, Setsockopt 3 SO_SNDTIMEO 5 0 0,
       Gethostbyname2 ''dst'' (Some \<lparr>h_addr_list = Some [8]\<rparr>), Connect 3 8 30001 0] @
      [Socket 4, Setsockopt 4 SO_RCVTIMEO 5 0 0, Setsockopt 4 SO_SNDTIMEO 5 0 0,
       Gethostbyname2 ''src'' (Some \<lparr>h_addr_list = Some [7]\<rparr>), Connect 4 7 30002 0] @ rest) \<and>
   fst (main_loop ''src'' 30002 ''dst'' 30001 no_address) =
      [Socket 3, Setsockopt 3 SO_RCVTIMEO 5 0 0, Setsockopt 3 SO_SNDTIMEO 5 0 0,
       Gethostbyname2 ''dst'' (Some \<lparr>h_addr_list = Some []\<rparr>),
       Stderr ''error'' (No_ipv4_address ''dst'')]"
proof -
  let ?w1 = "burst\<lparr>socket_rs := [4], setsockopt_rs := [0, 0],
                gethostbyname2_rs := [Some \<lparr>h_addr_list = Some [7]\<rparr>], connect_rs := [0]\<rparr>"
  have d: "socket_connect ''dst'' 30001 burst =
     ([Socket 3, Setsockopt 3 SO_RCVTIMEO 5 0 0, Setsockopt 3 SO_SNDTIMEO 5 0 0,
       Gethostbyname2 ''dst'' (Some \<lparr>h_addr_list = Some [8]\<rparr>), Connect 3 8 30001 0],
      Ret 3 ?w1)"
    by (simp add: burst_def sys_spent_def run_simps)
  have s: "fst (socket_connect ''src'' 30002 ?w1) =
      [Socket 4, Setsockopt 4 SO_RCVTIMEO 5 0 0, Setsockopt 4 SO_SNDTIMEO 5 0 0,
       Gethostbyname2 ''src'' (Some \<lparr>h_addr_list = Some [7]\<rparr>), Connect 4 7 30002 0]"
    by (simp add: burst_def sys_spent_def run_simps)
  have n: "socket_connect ''dst'' 30001 no_address =
     ([Socket 3, Setsockopt 3 SO_RCVTIMEO 5 0 0, Setsockopt 3 SO_SNDTIMEO 5 0 0,
       Gethostbyname2 ''dst'' (Some \<lparr>h_addr_list = Some []\<rparr>),
       Stderr ''error'' (No_ipv4_address ''dst'')], Exit 1)"
    by (simp add: no_address_def sys_spent_def run_simps)
  from destination_is_connected_first [OF d, of "''src''" 30002]
    destination_is_connected_first [OF n, of "''src''" 30002] s
  show ?thesis
    by simp
qed

section \<open>The claims about the arguments\<close>

text \<open>
  C9. The claim asks for the usage text, one error line and status 2 whenever a host is
  missing. With \<^verbatim>\<open>-s\<close> or \<^verbatim>\<open>-d\<close> as the last argument the program reads the port
  from \<^verbatim>\<open>argv[argc]\<close>, the NULL pointer, before it comes to the check for the hosts:
  nothing is printed and no status 2 is returned, although a host is missing.
\<close>

theorem port_option_without_value_faults:
  "main [''remote-dump1090'', ''-s''] w = ([Signal_ignore_SIGPIPE], Fault) \<and>
   main [''remote-dump1090'', ''src'', ''-d''] w = ([Signal_ignore_SIGPIPE], Fault)"
  by (simp add: main_simps)

text \<open>
  C10, as it is stated: a port value that is not a valid decimal number is taken as 0. The
  value \<^verbatim>\<open>12abc\<close> is not a valid decimal number, and the source is then connected at
  port 12, not at port 0.
\<close>

theorem digits_before_other_characters_are_the_port:
  "\<not> valid_decimal ''12abc'' \<and>
   List.map_filter connect_port
     (fst (main [''remote-dump1090'', ''-s12abc'', ''src'', ''dst''] burst)) = [30001, 12]"
  by (simp add: valid_decimal_def main_simps strtoul_simps burst_def sys_spent_def
        run_simps loop_simps)

text \<open>
  C10, amended. The value of \<^verbatim>\<open>-s\<close> and of \<^verbatim>\<open>-d\<close>, attached to the option or
  given as the next argument, is handed to \<^verbatim>\<open>strtoul\<close>, and what \<^verbatim>\<open>strtoul\<close>
  returns becomes the port, converted to \<^verbatim>\<open>int\<close>: the loop goes on with the next
  argument and has no branch that reports the value. With both hosts known at the end of
  the arguments, \<^verbatim>\<open>main_loop\<close> is called with the two ports as they are, whatever
  their range. A value in which \<^verbatim>\<open>strtoul\<close> finds no digit gives port 0. A value that
  begins with digits gives, whatever follows the digits, the number they denote, cut off
  at \<^verbatim>\<open>ULONG_MAX\<close> = \<open>2 ^ 64 - 1\<close> by \<^verbatim>\<open>strtoul\<close> and then reduced to its low 32 bits,
  read as a signed number, by the conversion to \<^verbatim>\<open>int\<close>: this is the number itself
  when it is below \<open>2 ^ 31\<close>.
\<close>

theorem port_value_is_not_checked:
  "(val \<noteq> [] \<longrightarrow>
      arg_loop ((CHR ''-'' # CHR ''s'' # val) # rest) src_host dst_host src_port dst_port w =
        arg_loop rest src_host dst_host (to_int (strtoul val)) dst_port w) \<and>
   arg_loop (''-s'' # val # rest) src_host dst_host src_port dst_port w =
     arg_loop rest src_host dst_host (to_int (strtoul val)) dst_port w \<and>
   (val \<noteq> [] \<longrightarrow>
      arg_loop ((CHR ''-'' # CHR ''d'' # val) # rest) src_host dst_host src_port dst_port w =
        arg_loop rest src_host dst_host src_port (to_int (strtoul val)) w) \<and>
   arg_loop (''-d'' # val # rest) src_host dst_host src_port dst_port w =
     arg_loop rest src_host dst_host src_port (to_int (strtoul val)) w \<and>
   arg_loop [] (Some sh) (Some dh) src_port dst_port w =
     and_then (main_loop sh src_port dh dst_port w) (\<lambda>_ w'. ([], Ret 0 w')) \<and>
   (\<not> is_option sh \<and> \<not> is_option dh \<and> val \<noteq> [] \<longrightarrow>
      main [prog, CHR ''-'' # CHR ''s'' # val, sh, dh] w =
        emit [Signal_ignore_SIGPIPE]
          (and_then (main_loop sh (to_int (strtoul val)) dh 30001 w) (\<lambda>_ w'. ([], Ret 0 w')))) \<and>
   (\<not> is_option sh \<and> \<not> is_option dh \<longrightarrow>
      main [prog, ''-d'', val, sh, dh] w =
        emit [Signal_ignore_SIGPIPE]
          (and_then (main_loop sh 30002 dh (to_int (strtoul val)) w) (\<lambda>_ w'. ([], Ret 0 w')))) \<and>
   (digits_of val = [] \<longrightarrow> to_int (strtoul val) = 0) \<and>
   (takeWhile isdigit val \<noteq> [] \<longrightarrow>
      strtoul val = min (decimal 0 (takeWhile isdigit val)) (2 ^ 64 - 1) \<and>
      to_int (strtoul val) =
        (min (decimal 0 (takeWhile isdigit val)) (2 ^ 64 - 1) + 2 ^ 31) mod 2 ^ 32 - 2 ^ 31) \<and>
   (takeWhile isdigit val \<noteq> [] \<and> decimal 0 (takeWhile isdigit val) < 2 ^ 31 \<longrightarrow>
      to_int (strtoul val) = decimal 0 (takeWhile isdigit val))"
proof -
  have m1: "main [prog, CHR ''-'' # CHR ''s'' # val, sh, dh] w =
        emit [Signal_ignore_SIGPIPE]
          (and_then (main_loop sh (to_int (strtoul val)) dh 30001 w) (\<lambda>_ w'. ([], Ret 0 w')))"
    if "\<not> is_option sh \<and> \<not> is_option dh \<and> val \<noteq> []"
    using that by (simp add: main_def arg_loop_s_attached arg_loop_hosts del: arg_loop.simps)
  have m2: "main [prog, ''-d'', val, sh, dh] w =
        emit [Signal_ignore_SIGPIPE]
          (and_then (main_loop sh 30002 dh (to_int (strtoul val)) w) (\<lambda>_ w'. ([], Ret 0 w')))"
    if "\<not> is_option sh \<and> \<not> is_option dh"
    using that by (simp add: main_def arg_loop_d_detached arg_loop_hosts del: arg_loop.simps)
  have e: "arg_loop [] (Some sh) (Some dh) src_port dst_port w =
     and_then (main_loop sh src_port dh dst_port w) (\<lambda>_ w'. ([], Ret 0 w'))"
    by (simp add: after_args_def)
  have cap: "strtoul val = min (decimal 0 (takeWhile isdigit val)) (2 ^ 64 - 1)"
    if "takeWhile isdigit val \<noteq> []"
    using strtoul_leading_digits_capped [OF that] by (simp only: ULONG_MAX_def)
  show ?thesis
  proof (intro conjI impI)
    assume "val \<noteq> []"
    then show "arg_loop ((CHR ''-'' # CHR ''s'' # val) # rest) src_host dst_host src_port dst_port w =
        arg_loop rest src_host dst_host (to_int (strtoul val)) dst_port w"
      by (rule arg_loop_s_attached)
  next
    show "arg_loop (''-s'' # val # rest) src_host dst_host src_port dst_port w =
        arg_loop rest src_host dst_host (to_int (strtoul val)) dst_port w"
      by (rule arg_loop_s_detached)
  next
    assume "val \<noteq> []"
    then show "arg_loop ((CHR ''-'' # CHR ''d'' # val) # rest) src_host dst_host src_port dst_port w =
        arg_loop rest src_host dst_host src_port (to_int (strtoul val)) w"
      by (rule arg_loop_d_attached)
  next
    show "arg_loop (''-d'' # val # rest) src_host dst_host src_port dst_port w =
        arg_loop rest src_host dst_host src_port (to_int (strtoul val)) w"
      by (rule arg_loop_d_detached)
  next
    show "arg_loop [] (Some sh) (Some dh) src_port dst_port w =
        and_then (main_loop sh src_port dh dst_port w) (\<lambda>_ w'. ([], Ret 0 w'))"
      by (rule e)
  next
    assume "\<not> is_option sh \<and> \<not> is_option dh \<and> val \<noteq> []"
    then show "main [prog, CHR ''-'' # CHR ''s'' # val, sh, dh] w =
        emit [Signal_ignore_SIGPIPE]
          (and_then (main_loop sh (to_int (strtoul val)) dh 30001 w) (\<lambda>_ w'. ([], Ret 0 w')))"
      by (rule m1)
  next
    assume "\<not> is_option sh \<and> \<not> is_option dh"
    then show "main [prog, ''-d'', val, sh, dh] w =
        emit [Signal_ignore_SIGPIPE]
          (and_then (main_loop sh 30002 dh (to_int (strtoul val)) w) (\<lambda>_ w'. ([], Ret 0 w')))"
      by (rule m2)
  next
    assume "digits_of val = []"
    then show "to_int (strtoul val) = 0"
      by (simp add: strtoul_no_digits)
  next
    assume "takeWhile isdigit val \<noteq> []"
    then show "strtoul val = min (decimal 0 (takeWhile isdigit val)) (2 ^ 64 - 1)"
      by (rule cap)
  next
    assume "takeWhile isdigit val \<noteq> []"
    then have "strtoul val = min (decimal 0 (takeWhile isdigit val)) (2 ^ 64 - 1)"
      by (rule cap)
    then show "to_int (strtoul val) =
        (min (decimal 0 (takeWhile isdigit val)) (2 ^ 64 - 1) + 2 ^ 31) mod 2 ^ 32 - 2 ^ 31"
      by (simp only: to_int_def)
  next
    assume "takeWhile isdigit val \<noteq> [] \<and> decimal 0 (takeWhile isdigit val) < 2 ^ 31"
    then show "to_int (strtoul val) = decimal 0 (takeWhile isdigit val)"
      by (intro strtoul_leading_digits) simp_all
  qed
qed

text \<open>
  The value \<^verbatim>\<open>abc\<close> for the source gives port 0; the value \<^verbatim>\<open>70000\<close> for the
  destination is accepted and connects at port 70000 mod 65536 = 4464; the value
  \<^verbatim>\<open>4294967297x\<close> for the source, whose digits denote \<open>2 ^ 32 + 1\<close>, gives port 1.
\<close>

theorem port_value_is_not_checked_witness:
  "List.map_filter connect_port
     (fst (main [''remote-dump1090'', ''-sabc'', ''src'', ''dst''] burst)) = [30001, 0] \<and>
   List.map_filter connect_port
     (fst (main [''remote-dump1090'', ''-d'', ''70000'', ''src'', ''dst''] burst)) = [4464, 30002] \<and>
   to_int (strtoul ''4294967297x'') = 1 \<and>
   List.map_filter connect_port
     (fst (main [''remote-dump1090'', ''-s4294967297x'', ''src'', ''dst''] burst)) = [30001, 1]"
proof -
  have o: "\<not> is_option ''src'' \<and> \<not> is_option ''dst'' \<and> ''abc'' \<noteq> []"
    "\<not> is_option ''src'' \<and> \<not> is_option ''dst''"
    "\<not> is_option ''src'' \<and> \<not> is_option ''dst'' \<and> ''4294967297x'' \<noteq> []"
    by (simp_all add: is_option_def)
  have d: "digits_of ''abc'' = []"
    by (simp add: digits_of_def isspace_def isdigit_def)
  have v: "to_int (strtoul ''70000'') = 70000"
    by (simp add: strtoul_simps)
  have g: "takeWhile isdigit ''4294967297x'' = ''4294967297''"
    by (simp add: isdigit_def)
  note t1 = port_value_is_not_checked [where val = "''abc''" and w = burst and sh = "''src''"
      and dh = "''dst''" and prog = "''remote-dump1090''"]
  note t2 = port_value_is_not_checked [where val = "''70000''" and w = burst and sh = "''src''"
      and dh = "''dst''" and prog = "''remote-dump1090''"]
  note t3 = port_value_is_not_checked [where val = "''4294967297x''" and w = burst
      and sh = "''src''" and dh = "''dst''" and prog = "''remote-dump1090''"]
  have z: "to_int (strtoul ''abc'') = 0"
    using t1 d by blast
  have "takeWhile isdigit ''4294967297x'' \<noteq> []"
    unfolding g by simp
  with t3 have "to_int (strtoul ''4294967297x'') =
      (min (decimal 0 (takeWhile isdigit ''4294967297x'')) (2 ^ 64 - 1) + 2 ^ 31) mod 2 ^ 32 -
        2 ^ 31"
    by blast
  then have y: "to_int (strtoul ''4294967297x'') = 1"
    unfolding g by simp
  have a: "main [''remote-dump1090'', ''-sabc'', ''src'', ''dst''] burst =
        emit [Signal_ignore_SIGPIPE]
          (and_then (main_loop ''src'' (to_int (strtoul ''abc'')) ''dst'' 30001 burst)
             (\<lambda>_ w'. ([], Ret 0 w')))"
    using t1 o(1) by blast
  have b: "main [''remote-dump1090'', ''-d'', ''70000'', ''src'', ''dst''] burst =
        emit [Signal_ignore_SIGPIPE]
          (and_then (main_loop ''src'' 30002 ''dst'' (to_int (strtoul ''70000'')) burst)
             (\<lambda>_ w'. ([], Ret 0 w')))"
    using t2 o(2) by blast
  have c: "main [''remote-dump1090'', ''-s4294967297x'', ''src'', ''dst''] burst =
        emit [Signal_ignore_SIGPIPE]
          (and_then (main_loop ''src'' (to_int (strtoul ''4294967297x'')) ''dst'' 30001 burst)
             (\<lambda>_ w'. ([], Ret 0 w')))"
    using t3 o(3) by blast
  have "List.map_filter connect_port
     (fst (main [''remote-dump1090'', ''-sabc'', ''src'', ''dst''] burst)) = [30001, 0] \<and>
   List.map_filter connect_port
     (fst (main [''remote-dump1090'', ''-d'', ''70000'', ''src'', ''dst''] burst)) = [4464, 30002] \<and>
   List.map_filter connect_port
     (fst (main [''remote-dump1090'', ''-s4294967297x'', ''src'', ''dst''] burst)) = [30001, 1]"
    unfolding a b c z v y
    by (simp add: burst_def sys_spent_def run_simps loop_simps)
  with y show ?thesis
    by blast
qed

end
